theory Spec2Isabelle
  imports Main "HOL-Library.AList"
begin

section \<open>Strings and the host's path library\<close>

text \<open>
  JavaScript strings are modelled as \<open>string\<close> (lists of 8-bit characters).
  \<open>str_split\<close> and \<open>str_join\<close> are \<open>String.prototype.split\<close> with a one-character
  separator and \<open>Array.prototype.join\<close>.
\<close>

fun split_acc :: "char \<Rightarrow> string \<Rightarrow> string \<Rightarrow> string list" where
  "split_acc sep acc [] = [acc]"
| "split_acc sep acc (c # cs) =
     (if c = sep then acc # split_acc sep [] cs else split_acc sep (acc @ [c]) cs)"

definition str_split :: "char \<Rightarrow> string \<Rightarrow> string list" where
  "str_split sep s = split_acc sep [] s"

fun str_join :: "string \<Rightarrow> string list \<Rightarrow> string" where
  "str_join sep [] = []"
| "str_join sep [x] = x"
| "str_join sep (x # y # ys) = x @ sep @ str_join sep (y # ys)"

text \<open>\<open>String.prototype.includes\<close>: does \<open>sub\<close> occur in \<open>s\<close> as a contiguous run?\<close>

fun starts_with :: "string \<Rightarrow> string \<Rightarrow> bool" where
  "starts_with s [] = True"
| "starts_with [] (p # ps) = False"
| "starts_with (c # cs) (p # ps) = (c = p \<and> starts_with cs ps)"

fun str_includes :: "string \<Rightarrow> string \<Rightarrow> bool" where
  "str_includes [] sub = (sub = [])"
| "str_includes (c # cs) sub = (starts_with (c # cs) sub \<or> str_includes cs sub)"

text \<open>
  The functions of Node's \<open>path\<close> module (POSIX flavour) that the bundler calls:
  \<open>path.extname\<close>, \<open>path.dirname\<close>, \<open>path.normalize\<close> and \<open>path.join\<close>.
\<close>

definition path_extname :: "string \<Rightarrow> string" where
  "path_extname p =
     (let rb = takeWhile (\<lambda>c. c \<noteq> CHR ''/'') (dropWhile (\<lambda>c. c = CHR ''/'') (rev p));
          rext = takeWhile (\<lambda>c. c \<noteq> CHR ''.'') rb;
          stem = drop (Suc (length rext)) rb
      in if CHR ''.'' \<notin> set rb then []
         else if stem = [] then []
         else if rb = ''..'' then []
         else CHR ''.'' # rev rext)"

definition path_dirname :: "string \<Rightarrow> string" where
  "path_dirname p =
     (case p of
        [] \<Rightarrow> ''.''
      | c # cs \<Rightarrow>
          (let hasRoot = (c = CHR ''/'');
               b = dropWhile (\<lambda>c. c \<noteq> CHR ''/'') (dropWhile (\<lambda>c. c = CHR ''/'') (rev cs));
               endpos = length b
           in if b = [] then (if hasRoot then ''/'' else ''.'')
              else if hasRoot \<and> endpos = 1 then ''//''
              else take endpos p))"

fun normalizeString :: "bool \<Rightarrow> string list \<Rightarrow> string list \<Rightarrow> string list" where
  "normalizeString allowAboveRoot res [] = res"
| "normalizeString allowAboveRoot res (seg # segs) =
     (if seg = [] \<or> seg = ''.'' then normalizeString allowAboveRoot res segs
      else if seg = ''..'' then
        (if res \<noteq> [] \<and> last res \<noteq> ''..''
           then normalizeString allowAboveRoot (butlast res) segs
         else if allowAboveRoot
           then normalizeString allowAboveRoot (res @ [''..'']) segs
         else normalizeString allowAboveRoot res segs)
      else normalizeString allowAboveRoot (res @ [seg]) segs)"

definition path_normalize :: "string \<Rightarrow> string" where
  "path_normalize p =
     (if p = [] then ''.''
      else
        (let isAbsolute = (take 1 p = ''/'');
             trailingSeparator = (last p = CHR ''/'');
             q = str_join ''/'' (normalizeString (\<not> isAbsolute) [] (str_split CHR ''/'' p))
         in if q = [] then (if isAbsolute then ''/'' else if trailingSeparator then ''./'' else ''.'')
            else (if isAbsolute then ''/'' else []) @ q @ (if trailingSeparator then ''/'' else [])))"

definition path_join :: "string list \<Rightarrow> string" where
  "path_join args =
     (let joined = str_join ''/'' (filter (\<lambda>a. a \<noteq> []) args)
      in if joined = [] then ''.'' else path_normalize joined)"


section \<open>Errors, syntax trees and the collaborators\<close>

text \<open>
  Everything the program can throw. \<open>Error\<close> is the exception the bundler raises itself,
  with its message; the others come from the host: a failed file read, a parse failure of
  the front-end, a failed package lookup, and a \<open>TypeError\<close> of the language or of the
  front-end's node builders.
\<close>

datatype error =
    Error string
  | ENOENT string
  | SyntaxError string
  | MODULE_NOT_FOUND string
  | TypeError string

text \<open>
  The part of the front-end's syntax tree that the bundler inspects or builds. The second
  field of \<open>Identifier\<close> records the front-end's scope analysis, which runs once, before
  the plugin: \<open>Reference\<close> is an occurrence that the analysis lists among the reference
  paths of the program-scope binding of that name, at the place where the analysis found
  it; \<open>NoReference\<close> is any other identifier, among them those of the nodes that the
  bundler builds itself. A reference path is a place in a parent node. When a visitor of
  the plugin puts the identifier node itself into a statement that it builds, the path
  goes on naming the place in the old parent, which is no longer part of the program:
  \<open>Moved\<close> is such an occurrence, and \<open>MovedSpecifier\<close> one whose old parent is an export
  specifier. \<open>ImportDeclaration\<close> holds its specifiers and the value of its source
  literal, \<open>ImportSpecifier\<close> the imported and the local name, the other two specifiers
  the local name. Every other node type is \<open>Other\<close> with its type name and children.
\<close>

datatype reference_path = NoReference | Reference | Moved | MovedSpecifier

datatype node =
    Identifier string reference_path
  | StringLiteral string
  | MemberExpression node node bool
  | CallExpression node "node list"
  | AssignmentExpression string node node
  | ExpressionStatement node
  | VariableDeclarator node "node option"
  | VariableDeclaration string "node list"
  | FunctionDeclaration "node option" "node list" "node list"
  | FunctionExpression "node option" "node list" "node list"
  | ImportDefaultSpecifier string
  | ImportSpecifier string string
  | ImportNamespaceSpecifier string
  | ImportDeclaration "node list" string
  | ExportDefaultDeclaration node
  | ExportSpecifier node node
  | ExportNamedDeclaration "node option" "node list"
  | Other string "node list"

text \<open>
  The collaborators of one run: the files that can be read (\<open>fs.readFileSync\<close>), the
  front-end's parser (\<open>babel.parseSync\<close>, \<open>None\<close> for a syntax error, otherwise the
  program body), its printer, the names \<open>generateUidIdentifier\<close> hands out (the
  \<open>k\<close>-th call of one transform), and the host's package lookup
  (\<open>require.resolve\<close> with a \<open>paths\<close> option, \<open>None\<close> when nothing is found), and the
  host's answer to a write at a path (\<open>fs.writeFileSync\<close>): the error it throws, or \<open>None\<close>
  when it writes the file.
\<close>

record env =
  files :: "(string \<times> string) list"
  parseSync :: "string \<Rightarrow> node list option"
  generate :: "node list \<Rightarrow> string"
  generateUid :: "nat \<Rightarrow> string"
  require_resolve :: "string \<Rightarrow> string list \<Rightarrow> string option"
  write_error :: "string \<Rightarrow> error option"

definition readFileSync :: "env \<Rightarrow> string \<Rightarrow> error + string" where
  "readFileSync env p =
     (case map_of (files env) p of None \<Rightarrow> Inl (ENOENT p) | Some c \<Rightarrow> Inr c)"


section \<open>Resolving a request\<close>

fun requestPaths_loop :: "string list \<Rightarrow> nat \<Rightarrow> string list" where
  "requestPaths_loop requesterParts 0 = []"
| "requestPaths_loop requesterParts (Suc i) =
     (str_join ''/'' (take (Suc i) requesterParts) @ ''/node_modules'')
       # requestPaths_loop requesterParts i"

definition requestPaths :: "string \<Rightarrow> string list" where
  "requestPaths requester =
     (let requesterParts = str_split CHR ''/'' requester
      in requestPaths_loop requesterParts (length requesterParts - 1))"

definition resolveRequest :: "env \<Rightarrow> string \<Rightarrow> string \<Rightarrow> error + string" where
  "resolveRequest env requester requestPath =
     (if take 1 requestPath = ''.''
        then Inr (path_join [path_dirname requester, requestPath])
      else
        (case require_resolve env requestPath (requestPaths requester) of
           None \<Rightarrow> Inl (MODULE_NOT_FOUND requestPath)
         | Some resolved \<Rightarrow> Inr resolved))"


section \<open>Text helpers of the bundler\<close>

text \<open>
  \<open>trim\<close> drops the empty lines of a text and removes from every line the indentation of
  the first line, where the line has that much white space in front. \<open>is_space\<close> is the
  class \<open>\s\<close> on 8-bit characters. On a text without a non-empty line, \<open>lines[0]\<close> is
  undefined and reading its length throws.
\<close>

definition is_space :: "char \<Rightarrow> bool" where
  "is_space c = (c \<in> set [CHR 0x09, CHR 0x0A, CHR 0x0B, CHR 0x0C, CHR 0x0D, CHR 0x20, CHR 0xA0])"

definition trim :: "string \<Rightarrow> error + string" where
  "trim str =
     (case filter (\<lambda>l. l \<noteq> []) (str_split CHR 0x0A str) of
        [] \<Rightarrow> Inl (TypeError ''Cannot read property 'length' of undefined'')
      | l0 # ls \<Rightarrow>
          (let padLength = length (takeWhile is_space l0)
           in Inr (str_join [CHR 0x0A]
                (map (\<lambda>line. if padLength \<le> length line \<and> list_all is_space (take padLength line)
                                then drop padLength line else line)
                     (l0 # ls)))))"


section \<open>Modules and the module cache\<close>

text \<open>
  A \<open>Module\<close> object is a cell of the heap; a reference to it is its index. The class of
  the object is \<open>cls\<close>. The fields \<open>ast\<close> (the program body; script modules only) and
  \<open>dependencies\<close> are \<open>None\<close> while the JavaScript field is undefined.
  \<open>MODULE_CACHE\<close> is the process-wide \<open>Map\<close> from file path to module, in insertion order;
  \<open>written\<close> lists the files written so far.
\<close>

datatype module_class = JSModule | CSSModule

record module =
  cls :: module_class
  filePath :: string
  content :: string
  ast :: "node list option"
  dependencies :: "nat list option"

record state =
  heap :: "module list"
  MODULE_CACHE :: "(string \<times> nat) list"
  written :: "(string \<times> string) list"

definition MODULE_LOADERS :: "string \<Rightarrow> module_class option" where
  "MODULE_LOADERS = map_of [(''.css'', CSSModule), (''.js'', JSModule)]"

definition CSSModule_transform :: "string \<Rightarrow> error + string" where
  "CSSModule_transform c =
     trim (''\<newline>      const content = '' @ [CHR 0x27] @ filter (\<lambda>x. x \<noteq> CHR 0x0A) c @
           [CHR 0x27] @ '';\<newline>'' @
           ''      const style = document.createElement('style');\<newline>'' @
           ''      style.type = 'text/css';\<newline>'' @
           ''      if (style.styleSheet) style.styleSheet.cssText = content;\<newline>'' @
           ''      else style.appendChild(document.createTextNode(content));\<newline>'' @
           ''      document.head.appendChild(style);\<newline>'' @
           ''    '')"

text \<open>
  \<open>new ModuleCls(filePath)\<close>: the base constructor reads the file and calls \<open>transform\<close>
  (the stylesheet class replaces the content, the others do nothing); the script class
  then parses the content.
\<close>

definition new_Module :: "env \<Rightarrow> module_class \<Rightarrow> string \<Rightarrow> error + module" where
  "new_Module env ModuleCls p =
     (case readFileSync env p of
        Inl e \<Rightarrow> Inl e
      | Inr c \<Rightarrow>
          (case ModuleCls of
             CSSModule \<Rightarrow>
               (case CSSModule_transform c of
                  Inl e \<Rightarrow> Inl e
                | Inr c' \<Rightarrow> Inr \<lparr>cls = CSSModule, filePath = p, content = c', ast = None,
                                 dependencies = None\<rparr>)
           | JSModule \<Rightarrow>
               (case parseSync env c of
                  None \<Rightarrow> Inl (SyntaxError c)
                | Some body \<Rightarrow> Inr \<lparr>cls = JSModule, filePath = p, content = c, ast = Some body,
                                   dependencies = None\<rparr>)))"

fun isImportDeclaration :: "node \<Rightarrow> bool" where
  "isImportDeclaration (ImportDeclaration specifiers source) = True"
| "isImportDeclaration n = False"

fun source_value :: "node \<Rightarrow> string" where
  "source_value (ImportDeclaration specifiers source) = source"
| "source_value n = []"

fun set_source_value :: "string \<Rightarrow> node \<Rightarrow> node" where
  "set_source_value v (ImportDeclaration specifiers source) = ImportDeclaration specifiers v"
| "set_source_value v n = n"

text \<open>The import declarations of a program body, each with its position in the body.\<close>

definition importDeclarations :: "node list \<Rightarrow> (nat \<times> node) list" where
  "importDeclarations body = filter (\<lambda>(i, n). isImportDeclaration n) (List.enumerate 0 body)"

text \<open>
  Reading and updating an object through a reference. A reference always denotes an
  object; for an index outside the heap \<open>heap_get\<close> answers \<open>None\<close> and an update does
  nothing.
\<close>

definition heap_get :: "state \<Rightarrow> nat \<Rightarrow> module option" where
  "heap_get s r = (if r < length (heap s) then Some (heap s ! r) else None)"

definition heap_set :: "state \<Rightarrow> nat \<Rightarrow> (module \<Rightarrow> module) \<Rightarrow> state" where
  "heap_set s r f = s\<lparr>heap := (heap s)[r := f (heap s ! r)]\<rparr>"

definition set_dependencies :: "state \<Rightarrow> nat \<Rightarrow> nat list \<Rightarrow> state" where
  "set_dependencies s this ds = heap_set s this (\<lambda>m. m\<lparr>dependencies := Some ds\<rparr>)"

text \<open>\<open>importDeclaration.source.value = resolvedPath\<close> on statement \<open>i\<close> of the body.\<close>

definition set_import_source :: "state \<Rightarrow> nat \<Rightarrow> nat \<Rightarrow> string \<Rightarrow> state" where
  "set_import_source s this i v =
     heap_set s this
       (\<lambda>m. m\<lparr>ast := map_option (\<lambda>body. body[i := set_source_value v (body ! i)]) (ast m)\<rparr>)"

text \<open>
  \<open>MODULE_CACHE.get(filePath)\<close> as the value \<open>createModule\<close> returns. A missing key would
  give \<open>undefined\<close>, on which every caller throws a \<open>TypeError\<close> at its first use.
\<close>

definition MODULE_CACHE_get :: "state \<Rightarrow> string \<Rightarrow> (error + nat) \<times> state" where
  "MODULE_CACHE_get s p =
     (case map_of (MODULE_CACHE s) p of
        None \<Rightarrow> (Inl (TypeError ''undefined''), s)
      | Some r \<Rightarrow> (Inr r, s))"

text \<open>
  \<open>createModule\<close>, the method \<open>initDependencies\<close> (dispatched on the class of the object)
  and the loop of \<open>JSModule.findDependencies\<close> over the import declarations, with the
  requester's path, the declarations still to do and the dependencies found so far.
  Every function returns the state it leaves behind, also when it throws.
\<close>

function createModule :: "env \<Rightarrow> state \<Rightarrow> string \<Rightarrow> (error + nat) \<times> state"
  and initDependencies :: "env \<Rightarrow> state \<Rightarrow> nat \<Rightarrow> (error + unit) \<times> state"
  and findDependencies ::
    "env \<Rightarrow> state \<Rightarrow> nat \<Rightarrow> string \<Rightarrow> (nat \<times> node) list \<Rightarrow> nat list
       \<Rightarrow> (error + nat list) \<times> state"
where
  "createModule env s p =
     (if map_of (MODULE_CACHE s) p = None then
        (let fileExtension = path_extname p in
         case MODULE_LOADERS fileExtension of
           None \<Rightarrow> (Inl (Error (''Unsupported extension \"'' @ fileExtension @ ''\".'')), s)
         | Some ModuleCls \<Rightarrow>
             (case new_Module env ModuleCls p of
                Inl e \<Rightarrow> (Inl e, s)
              | Inr m \<Rightarrow>
                  (let this = length (heap s);
                       s1 = s\<lparr>heap := heap s @ [m],
                              MODULE_CACHE := AList.update p this (MODULE_CACHE s)\<rparr>
                   in case initDependencies env s1 this of
                        (Inl e, s2) \<Rightarrow> (Inl e, s2)
                      | (Inr u, s2) \<Rightarrow> MODULE_CACHE_get s2 p)))
      else MODULE_CACHE_get s p)"
| "initDependencies env s this =
     (case heap_get s this of
        None \<Rightarrow> (Inl (TypeError ''undefined''), s)
      | Some m \<Rightarrow>
          (case cls m of
             CSSModule \<Rightarrow> (Inr (), set_dependencies s this [])
           | JSModule \<Rightarrow>
               (case ast m of
                  None \<Rightarrow> (Inl (TypeError ''undefined''), s)
                | Some body \<Rightarrow>
                    (case findDependencies env s this (filePath m) (importDeclarations body) [] of
                       (Inl e, s') \<Rightarrow> (Inl e, s')
                     | (Inr ds, s') \<Rightarrow> (Inr (), set_dependencies s' this ds)))))"
| "findDependencies env s this requester [] ds = (Inr ds, s)"
| "findDependencies env s this requester ((i, importDeclaration) # rest) ds =
     (let requestPath = source_value importDeclaration in
      case resolveRequest env requester requestPath of
        Inl e \<Rightarrow> (Inl e, s)
      | Inr resolvedPath \<Rightarrow>
          (case createModule env s resolvedPath of
             (Inl e, s') \<Rightarrow> (Inl e, s')
           | (Inr d, s') \<Rightarrow>
               findDependencies env (set_import_source s' this i resolvedPath)
                 this requester rest (ds @ [d])))"
  by pat_completeness auto

text \<open>
  Termination: the number of readable files that are not yet keys of the cache. A call of
  \<open>createModule\<close> that recurses has registered a readable file first, and the cache only
  grows.
\<close>

definition uncached :: "env \<Rightarrow> state \<Rightarrow> nat" where
  "uncached env s = card (fst ` set (files env) - fst ` set (MODULE_CACHE s))"

lemma heap_set_cache [simp]: "MODULE_CACHE (heap_set s r f) = MODULE_CACHE s"
  by (simp add: heap_set_def)

lemma set_dependencies_cache [simp]: "MODULE_CACHE (set_dependencies s r ds) = MODULE_CACHE s"
  by (simp add: set_dependencies_def)

lemma set_import_source_cache [simp]: "MODULE_CACHE (set_import_source s r i v) = MODULE_CACHE s"
  by (simp add: set_import_source_def)

lemma MODULE_CACHE_get_state [simp]: "snd (MODULE_CACHE_get s p) = s"
  by (simp add: MODULE_CACHE_get_def split: option.splits)

lemma update_keys: "fst ` set (AList.update k v al) = insert k (fst ` set al)"
  by (induction al) auto

lemma snd_propagate:
  "snd (case r of (Inl e, s2) \<Rightarrow> (Inl e, s2) | (Inr u, s2) \<Rightarrow> MODULE_CACHE_get s2 p) = snd r"
  by (simp split: prod.splits sum.splits)

lemma cache_grows_dom:
  shows "createModule_initDependencies_findDependencies_dom (Inl (env, s, p)) \<Longrightarrow>
           fst ` set (MODULE_CACHE s) \<subseteq> fst ` set (MODULE_CACHE (snd (createModule env s p)))"
    and "createModule_initDependencies_findDependencies_dom (Inr (Inl (env, s, this))) \<Longrightarrow>
           fst ` set (MODULE_CACHE s)
             \<subseteq> fst ` set (MODULE_CACHE (snd (initDependencies env s this)))"
    and "createModule_initDependencies_findDependencies_dom
           (Inr (Inr (env, s, this, requester, imps, ds))) \<Longrightarrow>
           fst ` set (MODULE_CACHE s)
             \<subseteq> fst ` set (MODULE_CACHE (snd (findDependencies env s this requester imps ds)))"
proof (induct env s p and env s this and env s this requester imps ds
       rule: createModule_initDependencies_findDependencies.pinduct)
  case (1 env s p)
  show ?case
  proof (cases "map_of (MODULE_CACHE s) p = None")
    case False
    then show ?thesis using "1.hyps"(1) by (auto simp: createModule.psimps)
  next
    case True
    show ?thesis
    proof (cases "MODULE_LOADERS (path_extname p)")
      case None
      then show ?thesis using True "1.hyps"(1) by (simp add: createModule.psimps)
    next
      case (Some c)
      show ?thesis
      proof (cases "new_Module env c p")
        case (Inl e)
        then show ?thesis using True Some "1.hyps"(1) by (simp add: createModule.psimps)
      next
        case (Inr m)
        let ?s1 = "s\<lparr>heap := heap s @ [m],
                       MODULE_CACHE := AList.update p (length (heap s)) (MODULE_CACHE s)\<rparr>"
        have ih: "fst ` set (MODULE_CACHE ?s1)
                    \<subseteq> fst ` set (MODULE_CACHE (snd (initDependencies env ?s1 (length (heap s)))))"
          using "1.hyps"(2)[OF True refl Some Inr refl refl] .
        have "fst ` set (MODULE_CACHE s) \<subseteq> fst ` set (MODULE_CACHE ?s1)"
          by (auto simp: update_keys)
        with ih have "fst ` set (MODULE_CACHE s)
            \<subseteq> fst ` set (MODULE_CACHE (snd (initDependencies env ?s1 (length (heap s)))))"
          by (rule order_trans[rotated])
        then show ?thesis
          using True Some Inr "1.hyps"(1)
          by (simp add: createModule.psimps Let_def snd_propagate)
      qed
    qed
  qed
next
  case (2 env s this)
  show ?case
  proof (cases "heap_get s this")
    case None
    then show ?thesis using "2.hyps"(1) by (simp add: initDependencies.psimps)
  next
    case (Some m)
    show ?thesis
    proof (cases "cls m")
      case CSSModule
      then show ?thesis using Some "2.hyps"(1) by (simp add: initDependencies.psimps)
    next
      case JSModule
      show ?thesis
      proof (cases "ast m")
        case None
        then show ?thesis using Some JSModule "2.hyps"(1) by (simp add: initDependencies.psimps)
      next
        case (Some body)
        note ih = "2.hyps"(2)[OF \<open>heap_get s this = Some m\<close> JSModule Some]
        obtain r s' where
          "findDependencies env s this (filePath m) (importDeclarations body) [] = (r, s')"
          by (cases "findDependencies env s this (filePath m) (importDeclarations body) []")
        then show ?thesis
          using ih \<open>heap_get s this = Some m\<close> JSModule Some "2.hyps"(1)
          by (cases r) (simp_all add: initDependencies.psimps)
      qed
    qed
  qed
next
  case (3 env s this requester ds)
  then show ?case by (simp add: findDependencies.psimps)
next
  case (4 env s this requester i importDeclaration rest ds)
  show ?case
  proof (cases "resolveRequest env requester (source_value importDeclaration)")
    case (Inl e)
    then show ?thesis using "4.hyps"(1) by (simp add: findDependencies.psimps)
  next
    case (Inr b)
    note ih1 = "4.hyps"(2)[OF refl Inr]
    show ?thesis
    proof (cases "createModule env s b")
      case (Pair xa y)
      show ?thesis
      proof (cases xa)
        case (Inl e)
        then show ?thesis using "4.hyps"(1) Inr Pair ih1 by (simp add: findDependencies.psimps)
      next
        case (Inr ba)
        note ih2 = "4.hyps"(3)[OF refl \<open>resolveRequest _ _ _ = Inr b\<close> Pair[symmetric] Inr]
        show ?thesis using "4.hyps"(1) \<open>resolveRequest _ _ _ = Inr b\<close> Pair Inr ih1 ih2
          by (auto simp: findDependencies.psimps)
      qed
    qed
  qed
qed

lemma uncached_mono:
  "fst ` set (MODULE_CACHE s) \<subseteq> fst ` set (MODULE_CACHE s') \<Longrightarrow> uncached env s' \<le> uncached env s"
  unfolding uncached_def by (intro card_mono) auto

lemma new_Module_readable: "new_Module env c p = Inr m \<Longrightarrow> p \<in> fst ` set (files env)"
  by (auto simp: new_Module_def readFileSync_def split: option.splits sum.splits
           dest: map_of_SomeD intro: rev_image_eqI)

lemma map_of_None_keys: "map_of al k = None \<Longrightarrow> k \<notin> fst ` set al"
  by (simp add: map_of_eq_None_iff)

lemma uncached_insert:
  assumes "p \<in> fst ` set (files env)" "p \<notin> fst ` set (MODULE_CACHE s)"
  shows "uncached env (s\<lparr>heap := h, MODULE_CACHE := AList.update p r (MODULE_CACHE s)\<rparr>)
           < uncached env s"
proof -
  have "fst ` set (files env) - insert p (fst ` set (MODULE_CACHE s))
          \<subset> fst ` set (files env) - fst ` set (MODULE_CACHE s)"
    using assms by auto
  then show ?thesis
    unfolding uncached_def by (simp add: update_keys psubset_card_mono)
qed

lemma load_total: "All createModule_initDependencies_findDependencies_dom"
  apply (relation "inv_image (less_than <*lex*> less_than)
     (\<lambda>x. case x of
        Inl (env, s, p) \<Rightarrow> (uncached env s, 0)
      | Inr (Inl (env, s, this)) \<Rightarrow> (uncached env s,
            (case heap_get s this of None \<Rightarrow> 0
             | Some m \<Rightarrow> length (importDeclarations (case ast m of None \<Rightarrow> [] | Some b \<Rightarrow> b))) + 2)
      | Inr (Inr (env, s, this, requester, imps, ds)) \<Rightarrow> (uncached env s, length imps + 1))")
  subgoal by auto
  subgoal for env s p x x2 b xa xb
    using uncached_insert[OF new_Module_readable map_of_None_keys] by simp
  subgoal by simp
  subgoal by simp
  subgoal for env s this requester i importDeclaration rest ds x b xa y ba
    using cache_grows_dom(1)[of env s b] uncached_mono[of s y env]
    by (auto simp: uncached_def set_import_source_def heap_set_def dest: sym)
  done

termination createModule
  using load_total by blast


section \<open>The module-interface transform\<close>

text \<open>
  The front-end's tree-rewrite facility, as far as the plugin of
  \<open>transformModuleInterface\<close> uses it: \<open>referencePath.replaceWith(new)\<close> on every reference
  path of the binding \<open>n\<close>, where \<open>new\<close> is a member expression. \<open>replaceWith\<close> validates
  the new node against the field of the parent that holds the old one and throws a
  \<open>TypeError\<close> when the field does not admit it. A member expression is admitted where an
  expression or the target of an assignment may stand: as the object or the computed
  property of a member expression, the callee or an argument of a call, either side of an
  assignment, the expression of an expression statement, the name or the initial value of
  a declarator, the declaration of a default export, and (taken so) as a child of a node
  of another type. It is refused as the local or the exported name of an export
  specifier, as the name or a parameter of a function, as a property that is not
  computed, and where a statement, a declarator, a declaration or a specifier must stand.
  (The scope analysis lists references in expression positions and as the local name of
  an export specifier only.) \<open>refused n t\<close>: some reference path of \<open>n\<close> in \<open>t\<close> names a
  place that refuses a member expression; a path whose identifier has been moved out of
  an export specifier still names the specifier. \<open>replaceWith n new t\<close>: the tree after
  the replacement at every reference path of \<open>n\<close>; a replacement at the path of a moved
  identifier changes the old parent and leaves the tree as it is.
\<close>

definition is_reference :: "string \<Rightarrow> node \<Rightarrow> bool" where
  "is_reference n t = (t = Identifier n Reference)"

declare is_reference_def [simp]

fun refused :: "string \<Rightarrow> node \<Rightarrow> bool" where
  "refused n (Identifier x r) = (x = n \<and> r = MovedSpecifier)"
| "refused n (StringLiteral v) = False"
| "refused n (MemberExpression obj prop computed) =
     (refused n obj \<or> refused n prop \<or> (\<not> computed \<and> is_reference n prop))"
| "refused n (CallExpression callee args) = (refused n callee \<or> list_ex (refused n) args)"
| "refused n (AssignmentExpression operator left right) = (refused n left \<or> refused n right)"
| "refused n (ExpressionStatement e) = refused n e"
| "refused n (VariableDeclarator i init) =
     (refused n i \<or> (case init of None \<Rightarrow> False | Some e \<Rightarrow> refused n e))"
| "refused n (VariableDeclaration kind declarations) =
     list_ex (\<lambda>d. is_reference n d \<or> refused n d) declarations"
| "refused n (FunctionDeclaration i params body) =
     ((case i of None \<Rightarrow> False | Some e \<Rightarrow> is_reference n e \<or> refused n e)
      \<or> list_ex (\<lambda>p. is_reference n p \<or> refused n p) params
      \<or> list_ex (\<lambda>statement. is_reference n statement \<or> refused n statement) body)"
| "refused n (FunctionExpression i params body) =
     ((case i of None \<Rightarrow> False | Some e \<Rightarrow> is_reference n e \<or> refused n e)
      \<or> list_ex (\<lambda>p. is_reference n p \<or> refused n p) params
      \<or> list_ex (\<lambda>statement. is_reference n statement \<or> refused n statement) body)"
| "refused n (ImportDefaultSpecifier l) = False"
| "refused n (ImportSpecifier imported l) = False"
| "refused n (ImportNamespaceSpecifier l) = False"
| "refused n (ImportDeclaration specifiers source) =
     list_ex (\<lambda>specifier. is_reference n specifier \<or> refused n specifier) specifiers"
| "refused n (ExportDefaultDeclaration declaration) = refused n declaration"
| "refused n (ExportSpecifier l exported) =
     (is_reference n l \<or> refused n l \<or> is_reference n exported \<or> refused n exported)"
| "refused n (ExportNamedDeclaration declaration specifiers) =
     ((case declaration of None \<Rightarrow> False | Some d \<Rightarrow> is_reference n d \<or> refused n d)
      \<or> list_ex (\<lambda>specifier. is_reference n specifier \<or> refused n specifier) specifiers)"
| "refused n (Other t children) = list_ex (refused n) children"

fun replaceWith :: "string \<Rightarrow> node \<Rightarrow> node \<Rightarrow> node" where
  "replaceWith n new (Identifier x r) = (if x = n \<and> r = Reference then new else Identifier x r)"
| "replaceWith n new (StringLiteral v) = StringLiteral v"
| "replaceWith n new (MemberExpression obj prop computed) =
     MemberExpression (replaceWith n new obj) (replaceWith n new prop) computed"
| "replaceWith n new (CallExpression callee args) =
     CallExpression (replaceWith n new callee) (map (replaceWith n new) args)"
| "replaceWith n new (AssignmentExpression operator left right) =
     AssignmentExpression operator (replaceWith n new left) (replaceWith n new right)"
| "replaceWith n new (ExpressionStatement e) = ExpressionStatement (replaceWith n new e)"
| "replaceWith n new (VariableDeclarator i init) =
     VariableDeclarator (replaceWith n new i) (map_option (replaceWith n new) init)"
| "replaceWith n new (VariableDeclaration kind declarations) =
     VariableDeclaration kind (map (replaceWith n new) declarations)"
| "replaceWith n new (FunctionDeclaration i params body) =
     FunctionDeclaration (map_option (replaceWith n new) i) (map (replaceWith n new) params)
       (map (replaceWith n new) body)"
| "replaceWith n new (FunctionExpression i params body) =
     FunctionExpression (map_option (replaceWith n new) i) (map (replaceWith n new) params)
       (map (replaceWith n new) body)"
| "replaceWith n new (ImportDefaultSpecifier l) = ImportDefaultSpecifier l"
| "replaceWith n new (ImportSpecifier imported l) = ImportSpecifier imported l"
| "replaceWith n new (ImportNamespaceSpecifier l) = ImportNamespaceSpecifier l"
| "replaceWith n new (ImportDeclaration specifiers source) =
     ImportDeclaration (map (replaceWith n new) specifiers) source"
| "replaceWith n new (ExportDefaultDeclaration declaration) =
     ExportDefaultDeclaration (replaceWith n new declaration)"
| "replaceWith n new (ExportSpecifier l exported) =
     ExportSpecifier (replaceWith n new l) (replaceWith n new exported)"
| "replaceWith n new (ExportNamedDeclaration declaration specifiers) =
     ExportNamedDeclaration (map_option (replaceWith n new) declaration)
       (map (replaceWith n new) specifiers)"
| "replaceWith n new (Other t children) = Other t (map (replaceWith n new) children)"

text \<open>
  \<open>specifier.node.local.name\<close> and the key read off the required object:
  \<open>'default'\<close> for a default specifier, otherwise \<open>specifier.get('imported.name').node\<close>.
  A namespace specifier has no \<open>imported\<close> child, and \<open>get('imported.name')\<close> throws on it
  (\<open>None\<close>).
\<close>

fun local_name :: "node \<Rightarrow> string" where
  "local_name (ImportDefaultSpecifier l) = l"
| "local_name (ImportSpecifier imported l) = l"
| "local_name (ImportNamespaceSpecifier l) = l"
| "local_name n = []"

fun importedKey :: "node \<Rightarrow> string option" where
  "importedKey (ImportDefaultSpecifier l) = Some ''default''"
| "importedKey (ImportSpecifier imported l) = Some imported"
| "importedKey n = None"

text \<open>
  The loop over the specifiers of one import declaration, on the statements of the
  program. The key is read before the loop over the reference paths of the binding, so a
  namespace specifier throws whether its binding is used or not. The replacements of one
  binding throw at the first path that refuses the member expression.
\<close>

fun specifiers_loop :: "node \<Rightarrow> node list \<Rightarrow> node list \<Rightarrow> error + node list" where
  "specifiers_loop newIdentifier [] program = Inr program"
| "specifiers_loop newIdentifier (specifier # rest) program =
     (case importedKey specifier of
        None \<Rightarrow> Inl (TypeError ''Cannot read property 'name' of undefined'')
      | Some key \<Rightarrow>
          (if list_ex (\<lambda>statement. is_reference (local_name specifier) statement
                                    \<or> refused (local_name specifier) statement) program
             then Inl (TypeError ''expected node to be of a type [\"Identifier\"] but instead got \"MemberExpression\"'')
           else
             specifiers_loop newIdentifier rest
               (map (replaceWith (local_name specifier)
                       (MemberExpression newIdentifier (StringLiteral key) True))
                    program)))"

definition require_declaration :: "node \<Rightarrow> string \<Rightarrow> node" where
  "require_declaration newIdentifier source =
     VariableDeclaration ''const''
       [VariableDeclarator newIdentifier
          (Some (CallExpression (Identifier ''require'' NoReference) [StringLiteral source]))]"

text \<open>
  \<open>t.toExpression\<close>, which throws on a statement that has no expression form. It answers
  with the node it was given (of a function or a class declaration, with the type
  changed), or with the expression of an expression statement.
\<close>

fun toExpression :: "node \<Rightarrow> error + node" where
  "toExpression (FunctionDeclaration i params body) = Inr (FunctionExpression i params body)"
| "toExpression (ExpressionStatement e) = Inr e"
| "toExpression (Other t children) =
     Inr (Other (if t = ''ClassDeclaration'' then ''ClassExpression'' else t) children)"
| "toExpression (VariableDeclaration kind declarations) =
     Inl (Error ''cannot turn VariableDeclaration to an expression'')"
| "toExpression (VariableDeclarator i init) =
     Inl (Error ''cannot turn VariableDeclarator to an expression'')"
| "toExpression (ImportDeclaration specifiers source) =
     Inl (Error ''cannot turn ImportDeclaration to an expression'')"
| "toExpression (ExportDefaultDeclaration declaration) =
     Inl (Error ''cannot turn ExportDefaultDeclaration to an expression'')"
| "toExpression (ExportNamedDeclaration declaration specifiers) =
     Inl (Error ''cannot turn ExportNamedDeclaration to an expression'')"
| "toExpression n = Inr n"

text \<open>
  An identifier node that a visitor takes out of its parent and puts into the statement it
  builds: the reference path of the identifier stays behind. Nodes below the one that is
  taken keep their parents, and their paths with them.
\<close>

fun moved :: "node \<Rightarrow> node" where
  "moved (Identifier x Reference) = Identifier x Moved"
| "moved n = n"

fun moved_specifier :: "node \<Rightarrow> node" where
  "moved_specifier (Identifier x Reference) = Identifier x MovedSpecifier"
| "moved_specifier n = n"

fun isIdentifier :: "node \<Rightarrow> bool" where
  "isIdentifier (Identifier x r) = True"
| "isIdentifier n = False"

text \<open>
  The statement \<open>exports.name = v\<close> as the visitors build it. The builder of the member
  expression, which is not computed, throws unless the name is an identifier.
\<close>

definition exports_assignment :: "node \<Rightarrow> node \<Rightarrow> node" where
  "exports_assignment name v =
     ExpressionStatement
       (AssignmentExpression ''=''
          (MemberExpression (Identifier ''exports'' NoReference) name False) v)"

text \<open>
  The \<open>declarations\<close> array of the \<open>ExportNamedDeclaration\<close> visitor, as pairs of name and
  value, as far as the builders accept them: a name that is missing or is not an
  identifier, and a value that is missing, make the builders throw.
\<close>

fun declarator_pair :: "node \<Rightarrow> error + (node \<times> node)" where
  "declarator_pair (VariableDeclarator i init) =
     (if \<not> isIdentifier i
        then Inl (TypeError ''Property property of MemberExpression expected node to be of a type [\"Identifier\",\"PrivateName\"]'')
      else
        (case init of
           None \<Rightarrow> Inl (TypeError ''Property right of AssignmentExpression expected node'')
         | Some v \<Rightarrow> Inr (moved i, moved v)))"
| "declarator_pair n = Inl (TypeError ''Property property of MemberExpression expected node'')"

fun specifier_pair :: "node \<Rightarrow> error + (node \<times> node)" where
  "specifier_pair (ExportSpecifier l exported) =
     (if \<not> isIdentifier exported
        then Inl (TypeError ''Property property of MemberExpression expected node to be of a type [\"Identifier\",\"PrivateName\"]'')
      else Inr (moved_specifier exported, moved_specifier l))"
| "specifier_pair n = Inl (TypeError ''Property right of AssignmentExpression expected node'')"

fun collect_pairs :: "('a \<Rightarrow> error + 'b) \<Rightarrow> 'a list \<Rightarrow> error + 'b list" where
  "collect_pairs f [] = Inr []"
| "collect_pairs f (x # xs) =
     (case f x of
        Inl e \<Rightarrow> Inl e
      | Inr y \<Rightarrow> (case collect_pairs f xs of Inl e \<Rightarrow> Inl e | Inr ys \<Rightarrow> Inr (y # ys)))"

fun export_declarations :: "node option \<Rightarrow> node list \<Rightarrow> error + (node \<times> node) list" where
  "export_declarations (Some (FunctionDeclaration (Some i) params body)) specifiers =
     (if isIdentifier i then Inr [(moved i, FunctionExpression (Some i) params body)]
      else Inl (TypeError ''Property property of MemberExpression expected node to be of a type [\"Identifier\",\"PrivateName\"]''))"
| "export_declarations (Some (FunctionDeclaration None params body)) specifiers =
     Inl (TypeError ''Property property of MemberExpression expected node'')"
| "export_declarations (Some (VariableDeclaration kind declarations)) specifiers =
     collect_pairs declarator_pair declarations"
| "export_declarations (Some d) specifiers =
     Inl (TypeError ''path.get(...).forEach is not a function'')"
| "export_declarations None specifiers = collect_pairs specifier_pair specifiers"

lemma specifiers_loop_length:
  "specifiers_loop u specifiers program = Inr program' \<Longrightarrow> length program' = length program"
  by (induction u specifiers program arbitrary: program' rule: specifiers_loop.induct)
     (auto split: if_splits option.splits)

text \<open>
  The traversal of the program body by the plugin: \<open>k\<close> counts the identifiers generated
  so far, \<open>visited\<close> are the statements already passed (as rewritten), and the last
  argument are the statements still to visit. The three visitors match statements of the
  body only, where import and export declarations stand. The visitor of an import
  declaration works on every statement of the program but the declaration itself, those
  already passed included. The value of a default export is the node that \<open>toExpression\<close>
  answers with, put into the new statement.
\<close>

function (sequential) traverse :: "env \<Rightarrow> nat \<Rightarrow> node list \<Rightarrow> node list \<Rightarrow> error + node list"
where
  "traverse env k visited [] = Inr visited"
| "traverse env k visited (ImportDeclaration specifiers source # rest) =
     (let newIdentifier = Identifier (generateUid env k) NoReference in
      case specifiers_loop newIdentifier specifiers (visited @ rest) of
        Inl e \<Rightarrow> Inl e
      | Inr program \<Rightarrow>
          traverse env (Suc k)
            (take (length visited) program @ [require_declaration newIdentifier source])
            (drop (length visited) program))"
| "traverse env k visited (ExportDefaultDeclaration declaration # rest) =
     (case toExpression declaration of
        Inl e \<Rightarrow> Inl e
      | Inr v \<Rightarrow>
          traverse env k
            (visited @ [exports_assignment (Identifier ''default'' NoReference) (moved v)]) rest)"
| "traverse env k visited (ExportNamedDeclaration declaration specifiers # rest) =
     (case export_declarations declaration specifiers of
        Inl e \<Rightarrow> Inl e
      | Inr declarations \<Rightarrow>
          traverse env k
            (visited @ map (\<lambda>(name, v). exports_assignment name v) declarations) rest)"
| "traverse env k visited (statement # rest) = traverse env k (visited @ [statement]) rest"
  by pat_completeness auto

termination traverse
  by (relation "measure (\<lambda>(env, k, visited, todo). length todo)")
     (auto dest: specifiers_loop_length)

text \<open>
  \<open>transformModuleInterface\<close>: nothing for a module of the base or the stylesheet class;
  for a script module the transform and the printer of the front-end, whose results
  replace \<open>ast\<close> and \<open>content\<close> once both are there.
\<close>

definition transformModuleInterface :: "env \<Rightarrow> module \<Rightarrow> error + module" where
  "transformModuleInterface env m =
     (case cls m of
        CSSModule \<Rightarrow> Inr m
      | JSModule \<Rightarrow>
          (case ast m of
             None \<Rightarrow> Inl (TypeError ''undefined'')
           | Some body \<Rightarrow>
               (case traverse env 0 [] body of
                  Inl e \<Rightarrow> Inl e
                | Inr body' \<Rightarrow> Inr (m\<lparr>ast := Some body', content := generate env body'\<rparr>))))"


section \<open>Bundling\<close>

text \<open>
  \<open>collectModules\<close>: the inner function \<open>collect\<close> and the \<open>forEach\<close> over the dependencies
  of a module. The \<open>Set\<close> of modules is a list in insertion order, which is the order
  \<open>Array.from\<close> gives. A module whose \<open>dependencies\<close> are undefined makes \<open>forEach\<close> throw.
\<close>

function collect :: "state \<Rightarrow> nat \<Rightarrow> nat list \<Rightarrow> error + nat list"
  and collect_forEach :: "state \<Rightarrow> nat list \<Rightarrow> nat list \<Rightarrow> error + nat list"
where
  "collect s module modules =
     (if module \<notin> set modules then
        (case heap_get s module of
           None \<Rightarrow> Inl (TypeError ''undefined'')
         | Some m \<Rightarrow>
             (case dependencies m of
                None \<Rightarrow> Inl (TypeError ''Cannot read property 'forEach' of undefined'')
              | Some ds \<Rightarrow> collect_forEach s ds (modules @ [module])))
      else Inr modules)"
| "collect_forEach s [] modules = Inr modules"
| "collect_forEach s (dependency # rest) modules =
     (case collect s dependency modules of
        Inl e \<Rightarrow> Inl e
      | Inr modules' \<Rightarrow> collect_forEach s rest modules')"
  by pat_completeness auto

text \<open>
  Termination: the number of objects of the heap that are not in the set. The set only
  grows, and a module is added before its dependencies are visited.
\<close>

definition unvisited :: "state \<Rightarrow> nat list \<Rightarrow> nat" where
  "unvisited s modules = card ({..<length (heap s)} - set modules)"

lemma collect_grows_dom:
  shows "collect_collect_forEach_dom (Inl (s, module, modules)) \<Longrightarrow>
           collect s module modules = Inr modules' \<Longrightarrow> set modules \<subseteq> set modules'"
    and "collect_collect_forEach_dom (Inr (s, ds, modules)) \<Longrightarrow>
           collect_forEach s ds modules = Inr modules' \<Longrightarrow> set modules \<subseteq> set modules'"
proof (induct s module modules and s ds modules arbitrary: modules' and modules'
       rule: collect_collect_forEach.pinduct)
  case (1 s module modules)
  show ?case
  proof (cases "module \<in> set modules")
    case True
    then show ?thesis using "1.hyps"(1) "1.prems" by (simp add: collect.psimps)
  next
    case False
    then obtain m ds where m: "heap_get s module = Some m" "dependencies m = Some ds"
        and r: "collect_forEach s ds (modules @ [module]) = Inr modules'"
      using "1.hyps"(1) "1.prems" by (auto simp: collect.psimps split: option.splits)
    from "1.hyps"(2)[OF False m r] show ?thesis by auto
  qed
next
  case (2 s modules)
  then show ?case by (simp add: collect_forEach.psimps)
next
  case (3 s dependency rest modules)
  from "3.hyps"(1) "3.prems" obtain mid where
    c: "collect s dependency modules = Inr mid" and r: "collect_forEach s rest mid = Inr modules'"
    by (auto simp: collect_forEach.psimps split: sum.splits)
  from "3.hyps"(2)[OF c] "3.hyps"(3)[OF c r] show ?case by blast
qed

lemma unvisited_mono: "set a \<subseteq> set b \<Longrightarrow> unvisited s b \<le> unvisited s a"
  unfolding unvisited_def by (intro card_mono) auto

lemma unvisited_add:
  "heap_get s r = Some m \<Longrightarrow> r \<notin> set modules \<Longrightarrow> unvisited s (modules @ [r]) < unvisited s modules"
  unfolding unvisited_def heap_get_def
  by (intro psubset_card_mono) (auto split: if_splits)

lemma collect_total: "All collect_collect_forEach_dom"
  apply (relation "inv_image (less_than <*lex*> less_than)
     (\<lambda>x. case x of
        Inl (s, module, modules) \<Rightarrow> (unvisited s modules, 0)
      | Inr (s, ds, modules) \<Rightarrow> (unvisited s modules, Suc (length ds)))")
  subgoal by auto
  subgoal using unvisited_add by simp
  subgoal by simp
  subgoal for s dependency rest modules modules'
    using collect_grows_dom(1)[of s dependency modules modules'] unvisited_mono[of modules modules' s]
    by auto
  done

termination collect
  using collect_total by blast

definition collectModules :: "state \<Rightarrow> nat \<Rightarrow> error + nat list" where
  "collectModules s graph = collect s graph []"

text \<open>
  \<open>toModuleMap\<close>: the loop calls \<open>transformModuleInterface\<close> on each module, which
  updates the object, and appends the entry of the module to the text of the map.
\<close>

definition moduleMap_entry :: "module \<Rightarrow> string" where
  "moduleMap_entry m =
     ''\"'' @ filePath m @ ''\": function(exports, require) { '' @ content m @ ''\<newline> },''"

fun toModuleMap_loop :: "env \<Rightarrow> state \<Rightarrow> nat list \<Rightarrow> string \<Rightarrow> (error + string) \<times> state" where
  "toModuleMap_loop env s [] moduleMap = (Inr moduleMap, s)"
| "toModuleMap_loop env s (module # rest) moduleMap =
     (case heap_get s module of
        None \<Rightarrow> (Inl (TypeError ''undefined''), s)
      | Some m \<Rightarrow>
          (case transformModuleInterface env m of
             Inl e \<Rightarrow> (Inl e, s)
           | Inr m' \<Rightarrow>
               toModuleMap_loop env (heap_set s module (\<lambda>old. m')) rest
                 (moduleMap @ moduleMap_entry m')))"

definition toModuleMap :: "env \<Rightarrow> state \<Rightarrow> nat list \<Rightarrow> (error + string) \<times> state" where
  "toModuleMap env s modules =
     (case toModuleMap_loop env s modules ''{'' of
        (Inl e, s') \<Rightarrow> (Inl e, s')
      | (Inr moduleMap, s') \<Rightarrow> (Inr (moduleMap @ ''}''), s'))"

definition addRuntime :: "string \<Rightarrow> string \<Rightarrow> error + string" where
  "addRuntime moduleMap entryPoint =
     trim (''\<newline>'' @
           ''    const modules = '' @ moduleMap @
           '';\<newline>'' @
           ''    const entry = \"'' @ entryPoint @
           ''\";\<newline>'' @
           ''    function webpackStart({ modules, entry }) {\<newline>'' @
           ''      const moduleCache = {};\<newline>'' @
           ''      const require = moduleName => {\<newline>'' @
           ''        // if in cache, return the cached version\<newline>'' @
           ''        if (moduleCache[moduleName]) {\<newline>'' @
           ''          return moduleCache[moduleName];\<newline>'' @
           ''        }\<newline>'' @
           ''        const exports = {};\<newline>'' @
           ''        // this will prevent infinite \"require\" loop\<newline>'' @
           ''        // from circular dependencies\<newline>'' @
           ''        moduleCache[moduleName] = exports;\<newline>'' @
           ''    \<newline>'' @
           ''        // \"require\"-ing the module,\<newline>'' @
           ''        // exported stuff will assigned to \"exports\"\<newline>'' @
           ''        modules[moduleName](exports, require);\<newline>'' @
           ''        return moduleCache[moduleName];\<newline>'' @
           ''      };\<newline>'' @
           ''    \<newline>'' @
           ''      // start the program\<newline>'' @
           ''      require(entry);\<newline>'' @
           ''    }\<newline>'' @
           ''\<newline>'' @
           ''    webpackStart({ modules, entry });\<newline>'' @
           ''    '')"

text \<open>
  \<open>bundle\<close> (here \<open>bundle_graph\<close>): the entry point is the path of the first collected module. An output file is
  a pair of its name and its content.
\<close>

definition bundle_graph :: "env \<Rightarrow> state \<Rightarrow> nat \<Rightarrow> (error + (string \<times> string) list) \<times> state" where
  "bundle_graph env s graph =
     (case collectModules s graph of
        Inl e \<Rightarrow> (Inl e, s)
      | Inr modules \<Rightarrow>
          (case toModuleMap env s modules of
             (Inl e, s') \<Rightarrow> (Inl e, s')
           | (Inr moduleMap, s') \<Rightarrow>
               (case (case modules of [] \<Rightarrow> None | m0 # ms \<Rightarrow> heap_get s' m0) of
                  None \<Rightarrow> (Inl (TypeError ''undefined''), s')
                | Some m \<Rightarrow>
                    (case addRuntime moduleMap (filePath m) of
                       Inl e \<Rightarrow> (Inl e, s')
                     | Inr moduleCode \<Rightarrow> (Inr [(''bundle.js'', moduleCode)], s')))))"


section \<open>The HTML shell and the build\<close>

text \<open>
  \<open>String.prototype.replace\<close> with a string pattern: the first occurrence is replaced,
  and the replacement text may refer to the match (\<open>$&\<close>), to the text before it and
  after it, and write a dollar sign as \<open>$$\<close>.
\<close>

fun expand_replacement :: "string \<Rightarrow> string \<Rightarrow> string \<Rightarrow> string \<Rightarrow> string" where
  "expand_replacement matched pre post [] = []"
| "expand_replacement matched pre post [c] = [c]"
| "expand_replacement matched pre post (c # d # r) =
     (if c = CHR ''$'' \<and> d = CHR ''$'' then CHR ''$'' # expand_replacement matched pre post r
      else if c = CHR ''$'' \<and> d = CHR ''&'' then matched @ expand_replacement matched pre post r
      else if c = CHR ''$'' \<and> d = CHR 0x60 then pre @ expand_replacement matched pre post r
      else if c = CHR ''$'' \<and> d = CHR 0x27 then post @ expand_replacement matched pre post r
      else c # expand_replacement matched pre post (d # r))"

fun replace_from :: "string \<Rightarrow> string \<Rightarrow> string \<Rightarrow> string \<Rightarrow> string" where
  "replace_from pat rep pre [] =
     (if pat = [] then pre @ expand_replacement pat pre [] rep else pre)"
| "replace_from pat rep pre (c # cs) =
     (if starts_with (c # cs) pat
        then pre @ expand_replacement pat pre (drop (length pat) (c # cs)) rep
               @ drop (length pat) (c # cs)
      else replace_from pat rep (pre @ [c]) cs)"

definition str_replace :: "string \<Rightarrow> string \<Rightarrow> string \<Rightarrow> string" where
  "str_replace s pat rep = replace_from pat rep [] s"

definition script_tag :: "string \<times> string \<Rightarrow> string" where
  "script_tag outputFile = ''<script src=\"/'' @ fst outputFile @ ''\"></script>''"

text \<open>
  \<open>generateHTMLTemplate\<close>. The template path is \<open>None\<close> when the caller passes none;
  \<open>fs.readFileSync(undefined)\<close> throws a \<open>TypeError\<close>.
\<close>

definition generateHTMLTemplate ::
  "env \<Rightarrow> string option \<Rightarrow> (string \<times> string) list \<Rightarrow> error + (string \<times> string)" where
  "generateHTMLTemplate env htmlTemplatePath outputFiles =
     (case htmlTemplatePath of
        None \<Rightarrow> Inl (TypeError ''The path argument must be of type string. Received undefined'')
      | Some p \<Rightarrow>
          (case readFileSync env p of
             Inl e \<Rightarrow> Inl e
           | Inr htmlTemplate \<Rightarrow>
               Inr (''index.html'',
                    str_replace htmlTemplate ''</body>''
                      (concat (map script_tag outputFiles) @ ''</body>''))))"

text \<open>
  \<open>fs.writeFileSync\<close> throws when the host refuses the write, and the file is written
  otherwise. The loop of \<open>build\<close> over the output files stops at the first write that
  throws; the files before it have been written.
\<close>

definition writeFileSync :: "env \<Rightarrow> state \<Rightarrow> string \<Rightarrow> string \<Rightarrow> (error + unit) \<times> state" where
  "writeFileSync env s p c =
     (case write_error env p of
        Some e \<Rightarrow> (Inl e, s)
      | None \<Rightarrow> (Inr (), s\<lparr>written := written s @ [(p, c)]\<rparr>))"

fun write_all ::
  "env \<Rightarrow> state \<Rightarrow> string \<Rightarrow> (string \<times> string) list \<Rightarrow> (error + unit) \<times> state" where
  "write_all env s outputFolder [] = (Inr (), s)"
| "write_all env s outputFolder (outputFile # rest) =
     (case writeFileSync env s (path_join [outputFolder, fst outputFile]) (snd outputFile) of
        (Inl e, s') \<Rightarrow> (Inl e, s')
      | (Inr u, s') \<Rightarrow> write_all env s' outputFolder rest)"

definition createDependencyGraph :: "env \<Rightarrow> state \<Rightarrow> string \<Rightarrow> (error + nat) \<times> state" where
  "createDependencyGraph env s entryFile = createModule env s entryFile"

text \<open>
  \<open>build\<close>, from the state of the process before the call to the state after it. The
  module cache is part of the state of the process: the script creates it once, when it is
  loaded, and \<open>build\<close> neither creates nor clears it.
\<close>

definition build ::
  "env \<Rightarrow> state \<Rightarrow> string \<Rightarrow> string \<Rightarrow> string option \<Rightarrow> (error + unit) \<times> state" where
  "build env s entryFile outputFolder htmlTemplatePath =
     (case createDependencyGraph env s entryFile of
        (Inl e, s1) \<Rightarrow> (Inl e, s1)
      | (Inr graph, s1) \<Rightarrow>
          (case bundle_graph env s1 graph of
             (Inl e, s2) \<Rightarrow> (Inl e, s2)
           | (Inr outputFiles, s2) \<Rightarrow>
               (case generateHTMLTemplate env htmlTemplatePath outputFiles of
                  Inl e \<Rightarrow> (Inl e, s2)
                | Inr html \<Rightarrow> write_all env s2 outputFolder (outputFiles @ [html]))))"


section \<open>The runtime of the bundle\<close>

text \<open>
  The code that \<open>addRuntime\<close> emits around the module map. An exports object is a cell of
  \<open>objects\<close>, the list of its properties. \<open>moduleCache\<close> is a plain object: the field
  \<open>moduleCache\<close> holds its own properties, a module name with its exports object, and
  a name that is not among them is looked up in \<open>Object.prototype\<close>, whose properties are
  functions, or the prototype itself for \<open>__proto__\<close>, and so truthy. The module map is an
  object literal, given by its entries in order, of which a later one overrides an earlier
  one of the same name. The body of a factory is given by what it does with its two
  parameters, in order: it calls \<open>require\<close> on a name, or it assigns a property of
  \<open>exports\<close>. The \<open>trace\<close> is not part of the program: it records each entry into a
  factory, and each return of a \<open>require\<close> call made by a factory with the value it got
  and, for an exports object, the properties of that object at that moment.
\<close>

datatype instr = Require string | Export string string

datatype jsvalue = Undefined | Object nat | Inherited string

datatype event = Enter string | Returned string jsvalue "(string \<times> string) list"

record runtime =
  moduleCache :: "(string \<times> nat) list"
  objects :: "(string \<times> string) list list"
  trace :: "event list"

definition Object_prototype :: "string list" where
  "Object_prototype =
     [''constructor'', ''__defineGetter__'', ''__defineSetter__'', ''hasOwnProperty'',
      ''__lookupGetter__'', ''__lookupSetter__'', ''isPrototypeOf'', ''propertyIsEnumerable'',
      ''toString'', ''valueOf'', ''__proto__'', ''toLocaleString'']"

definition object_at :: "runtime \<Rightarrow> nat \<Rightarrow> (string \<times> string) list" where
  "object_at rt r = (if r < length (objects rt) then objects rt ! r else [])"

definition properties :: "runtime \<Rightarrow> jsvalue \<Rightarrow> (string \<times> string) list" where
  "properties rt v = (case v of Object r \<Rightarrow> object_at rt r | Undefined \<Rightarrow> [] | Inherited n \<Rightarrow> [])"

definition set_property :: "runtime \<Rightarrow> nat \<Rightarrow> string \<Rightarrow> string \<Rightarrow> runtime" where
  "set_property rt r key v = rt\<lparr>objects := (objects rt)[r := AList.update key v (objects rt ! r)]\<rparr>"

definition log_event :: "runtime \<Rightarrow> event \<Rightarrow> runtime" where
  "log_event rt e = rt\<lparr>trace := trace rt @ [e]\<rparr>"

text \<open>\<open>moduleCache[moduleName]\<close> and \<open>modules[moduleName]\<close>.\<close>

definition moduleCache_get :: "runtime \<Rightarrow> string \<Rightarrow> jsvalue" where
  "moduleCache_get rt moduleName =
     (case map_of (moduleCache rt) moduleName of
        Some r \<Rightarrow> Object r
      | None \<Rightarrow> if moduleName \<in> set Object_prototype then Inherited moduleName else Undefined)"

definition modules_get :: "(string \<times> instr list) list \<Rightarrow> string \<Rightarrow> instr list option" where
  "modules_get modules moduleName = map_of (rev modules) moduleName"

text \<open>
  \<open>require\<close> and the run of a factory body. The test \<open>if (moduleCache[moduleName])\<close>
  succeeds on an exports object and on an inherited property, and fails on \<open>undefined\<close>
  only. A name that is not in the module map is registered with a fresh object before the
  call of the missing factory throws. (In that branch the name is not a property of
  \<open>Object.prototype\<close>, so that \<open>modules[moduleName]\<close> is a function only for a name of
  the map.)
\<close>

function require ::
    "(string \<times> instr list) list \<Rightarrow> runtime \<Rightarrow> string \<Rightarrow> (error + jsvalue) \<times> runtime"
  and run_factory ::
    "(string \<times> instr list) list \<Rightarrow> runtime \<Rightarrow> nat \<Rightarrow> instr list \<Rightarrow> (error + unit) \<times> runtime"
where
  "require modules rt moduleName =
     (if moduleCache_get rt moduleName \<noteq> Undefined then (Inr (moduleCache_get rt moduleName), rt)
      else
        (let exports = length (objects rt);
             rt1 = rt\<lparr>objects := objects rt @ [[]],
                      moduleCache := AList.update moduleName exports (moduleCache rt)\<rparr>
         in case modules_get modules moduleName of
              None \<Rightarrow> (Inl (TypeError ''modules[moduleName] is not a function''), rt1)
            | Some body \<Rightarrow>
                (case run_factory modules (log_event rt1 (Enter moduleName)) exports body of
                   (Inl e, rt2) \<Rightarrow> (Inl e, rt2)
                 | (Inr u, rt2) \<Rightarrow> (Inr (moduleCache_get rt2 moduleName), rt2))))"
| "run_factory modules rt exports [] = (Inr (), rt)"
| "run_factory modules rt exports (Require name # rest) =
     (case require modules rt name of
        (Inl e, rt') \<Rightarrow> (Inl e, rt')
      | (Inr v, rt') \<Rightarrow>
          run_factory modules (log_event rt' (Returned name v (properties rt' v))) exports rest)"
| "run_factory modules rt exports (Export key v # rest) =
     run_factory modules (set_property rt exports key v) exports rest"
  by pat_completeness auto

text \<open>
  Termination: the number of modules of the map whose name is not registered yet.
\<close>

definition unrun :: "(string \<times> instr list) list \<Rightarrow> runtime \<Rightarrow> nat" where
  "unrun modules rt = card (fst ` set modules - fst ` set (moduleCache rt))"

lemma moduleCache_get_Undefined:
  "moduleCache_get rt n = Undefined \<longleftrightarrow> map_of (moduleCache rt) n = None \<and> n \<notin> set Object_prototype"
  by (simp add: moduleCache_get_def split: option.splits)

lemma runtime_cache_simps [simp]:
  "moduleCache (log_event rt e) = moduleCache rt"
  "moduleCache (set_property rt r k v) = moduleCache rt"
  by (simp_all add: log_event_def set_property_def)

lemma snd_propagate_rt:
  "snd (case r of (Inl e, rt2) \<Rightarrow> (Inl e, rt2) | (Inr u, rt2) \<Rightarrow> (Inr (f rt2), rt2)) = snd r"
  by (simp split: prod.splits sum.splits)

lemma require_grows_dom:
  shows "require_run_factory_dom (Inl (modules, rt, n)) \<Longrightarrow>
           fst ` set (moduleCache rt) \<subseteq> fst ` set (moduleCache (snd (require modules rt n)))"
    and "require_run_factory_dom (Inr (modules, rt, ex, body)) \<Longrightarrow>
           fst ` set (moduleCache rt)
             \<subseteq> fst ` set (moduleCache (snd (run_factory modules rt ex body)))"
proof (induct modules rt n and modules rt ex body rule: require_run_factory.pinduct)
  case (1 modules rt moduleName)
  show ?case
  proof (cases "moduleCache_get rt moduleName \<noteq> Undefined")
    case True
    then show ?thesis using "1.hyps"(1) by (simp add: require.psimps)
  next
    case False
    let ?rt1 = "rt\<lparr>objects := objects rt @ [[]],
                      moduleCache := AList.update moduleName (length (objects rt)) (moduleCache rt)\<rparr>"
    have k: "fst ` set (moduleCache rt) \<subseteq> fst ` set (moduleCache ?rt1)"
      by (auto simp: update_keys)
    show ?thesis
    proof (cases "modules_get modules moduleName")
      case None
      then show ?thesis using False "1.hyps"(1) k by (simp add: require.psimps Let_def)
    next
      case (Some body)
      have "fst ` set (moduleCache (log_event ?rt1 (Enter moduleName)))
              \<subseteq> fst ` set (moduleCache (snd (run_factory modules (log_event ?rt1 (Enter moduleName))
                                                  (length (objects rt)) body)))"
        using "1.hyps"(2) False Some by simp
      with k have "fst ` set (moduleCache rt)
              \<subseteq> fst ` set (moduleCache (snd (run_factory modules (log_event ?rt1 (Enter moduleName))
                                                  (length (objects rt)) body)))"
        by simp
      then show ?thesis
        using False Some "1.hyps"(1) by (simp add: require.psimps Let_def snd_propagate_rt)
    qed
  qed
next
  case (2 modules rt exports)
  then show ?case by (simp add: run_factory.psimps)
next
  case (3 modules rt exports name rest)
  obtain r rt' where c: "require modules rt name = (r, rt')" by (cases "require modules rt name")
  have ih1: "fst ` set (moduleCache rt) \<subseteq> fst ` set (moduleCache rt')"
    using "3.hyps"(2) c by simp
  show ?case
  proof (cases r)
    case (Inl e)
    then show ?thesis using "3.hyps"(1) c ih1 by (simp add: run_factory.psimps)
  next
    case (Inr x)
    from "3.hyps"(3)[OF c[symmetric] Inr] ih1
    show ?thesis using "3.hyps"(1) c Inr by (auto simp: run_factory.psimps)
  qed
next
  case (4 modules rt exports key v rest)
  then show ?case by (simp add: run_factory.psimps)
qed

lemma unrun_mono:
  "fst ` set (moduleCache rt) \<subseteq> fst ` set (moduleCache rt') \<Longrightarrow> unrun modules rt' \<le> unrun modules rt"
  unfolding unrun_def by (intro card_mono) auto

lemma unrun_insert:
  assumes "modules_get modules n = Some body" "moduleCache_get rt n = Undefined"
  shows "unrun modules (rt\<lparr>objects := os, moduleCache := AList.update n r (moduleCache rt)\<rparr>)
           < unrun modules rt"
proof -
  have "(n, body) \<in> set modules"
    using assms(1) map_of_SomeD[of "rev modules" n body] by (simp add: modules_get_def)
  then have "n \<in> fst ` set modules" by force
  moreover have "n \<notin> fst ` set (moduleCache rt)"
    using assms(2) by (simp add: moduleCache_get_Undefined map_of_eq_None_iff)
  ultimately have "fst ` set modules - insert n (fst ` set (moduleCache rt))
          \<subset> fst ` set modules - fst ` set (moduleCache rt)"
    by auto
  then show ?thesis
    unfolding unrun_def by (simp add: update_keys psubset_card_mono)
qed

lemma require_total: "All require_run_factory_dom"
  apply (relation "inv_image (less_than <*lex*> less_than)
     (\<lambda>x. case x of
        Inl (modules, rt, n) \<Rightarrow> (unrun modules rt, 0)
      | Inr (modules, rt, ex, body) \<Rightarrow> (unrun modules rt, Suc (length body)))")
  subgoal by auto
  subgoal for modules rt moduleName x xa x2
    using unrun_insert[of modules moduleName x2 rt] by (simp add: unrun_def log_event_def)
  subgoal by simp
  subgoal for modules rt exports name rest x y xa
    using require_grows_dom(1)[of modules rt name] unrun_mono[of rt y modules]
    by (auto simp: unrun_def log_event_def dest: sym)
  subgoal by (simp add: unrun_def set_property_def)
  done

termination require
  using require_total by blast

definition webpackStart ::
  "(string \<times> instr list) list \<Rightarrow> string \<Rightarrow> (error + jsvalue) \<times> runtime" where
  "webpackStart modules entry = require modules \<lparr>moduleCache = [], objects = [], trace = []\<rparr> entry"


section \<open>Notions of the specification\<close>

text \<open>
  The absolute path with the given segments: \<open>abs_path [proj, src, a.js]\<close> is
  \<open>/proj/src/a.js\<close>, and \<open>abs_path []\<close> is the empty prefix that stands for the root.
  The ancestor directories of \<open>abs_path segs\<close>, from the immediate parent up to the root,
  are \<open>abs_path (take k segs)\<close> for \<open>k\<close> from \<open>length segs - 1\<close> down to \<open>0\<close>.
\<close>

definition abs_path :: "string list \<Rightarrow> string" where
  "abs_path segs = concat (map (\<lambda>seg. CHR ''/'' # seg) segs)"

text \<open>
  A package lookup that answers the first candidate directory in which the request
  exists, for the example below.
\<close>

definition first_match :: "string list \<Rightarrow> string \<Rightarrow> string list \<Rightarrow> string option" where
  "first_match existing request paths =
     List.find (\<lambda>f. f \<in> set existing) (map (\<lambda>d. d @ ''/'' @ request) paths)"

definition pkg_env :: env where
  "pkg_env =
     \<lparr>files = [],
      parseSync = (\<lambda>c. None),
      generate = (\<lambda>body. []),
      generateUid = (\<lambda>k. ''_imported''),
      require_resolve = first_match [''/node_modules/lib'', ''/proj/node_modules/lib''],
      write_error = (\<lambda>p. None)\<rparr>"

text \<open>
  The script that injects a style element with the text \<open>t\<close>, as the stylesheet class
  writes it.
\<close>

definition style_injection_script :: "string \<Rightarrow> string" where
  "style_injection_script t =
     ''const content = '' @ [CHR 0x27] @ t @ [CHR 0x27] @ '';\<newline>'' @
     ''const style = document.createElement('style');\<newline>'' @
     ''style.type = 'text/css';\<newline>'' @
     ''if (style.styleSheet) style.styleSheet.cssText = content;\<newline>'' @
     ''else style.appendChild(document.createTextNode(content));\<newline>'' @
     ''document.head.appendChild(style);\<newline>'' @
     ''    ''"

text \<open>
  One module per path: every entry of the cache leads to an object with that path, and
  every object of the heap is the entry of its own path. \<open>reachable s g\<close> are the modules
  that the \<open>dependencies\<close> edges reach from \<open>g\<close>, and \<open>deps_in s new all\<close> says that the
  modules \<open>new\<close> have their dependencies defined and among \<open>all\<close>.
\<close>

definition unique_modules :: "state \<Rightarrow> bool" where
  "unique_modules s =
     ((\<forall>p r. map_of (MODULE_CACHE s) p = Some r \<longrightarrow> r < length (heap s) \<and> filePath (heap s ! r) = p)
      \<and> (\<forall>r<length (heap s). map_of (MODULE_CACHE s) (filePath (heap s ! r)) = Some r))"

inductive_set reachable :: "state \<Rightarrow> nat \<Rightarrow> nat set" for s :: state and g :: nat where
  root: "g \<in> reachable s g"
| step: "r \<in> reachable s g \<Longrightarrow> heap_get s r = Some m \<Longrightarrow> dependencies m = Some ds \<Longrightarrow>
         d \<in> set ds \<Longrightarrow> d \<in> reachable s g"

definition deps_in :: "state \<Rightarrow> nat set \<Rightarrow> nat set \<Rightarrow> bool" where
  "deps_in s new all =
     (\<forall>x\<in>new. \<exists>m ds. heap_get s x = Some m \<and> dependencies m = Some ds \<and> set ds \<subseteq> all)"

text \<open>
  The names whose factory has been entered, in order. \<open>once\<close>: no factory has been
  entered twice, and every name whose factory has been entered is registered. \<open>grows\<close>
  relates a state of the runtime to a later one: the registered names keep their exports
  objects.
\<close>

fun entered :: "event list \<Rightarrow> string list" where
  "entered [] = []"
| "entered (Enter n # es) = n # entered es"
| "entered (Returned n r props # es) = entered es"

definition once :: "runtime \<Rightarrow> bool" where
  "once rt = (distinct (entered (trace rt)) \<and> set (entered (trace rt)) \<subseteq> fst ` set (moduleCache rt))"

definition grows :: "runtime \<Rightarrow> runtime \<Rightarrow> bool" where
  "grows rt rt' =
     (map_of (moduleCache rt) \<subseteq>\<^sub>m map_of (moduleCache rt')
      \<and> fst ` set (moduleCache rt) \<subseteq> fst ` set (moduleCache rt')
      \<and> (once rt \<longrightarrow> once rt'))"


section \<open>Example inputs\<close>

text \<open>
  The state of a fresh process, and a project of two script files that import each other.
  \<open>cyc_loaded\<close> is the state after loading \<open>/p/a.js\<close> from the fresh state.
\<close>

definition initial_state :: state where
  "initial_state = \<lparr>heap = [], MODULE_CACHE = [], written = []\<rparr>"

definition cyc_env :: env where
  "cyc_env =
     \<lparr>files = [(''/p/a.js'', ''import b from './b.js';''),
               (''/p/b.js'', ''import a from './a.js';'')],
      parseSync = map_of
        [(''import b from './b.js';'', [ImportDeclaration [ImportDefaultSpecifier ''b''] ''./b.js'']),
         (''import a from './a.js';'', [ImportDeclaration [ImportDefaultSpecifier ''a''] ''./a.js''])],
      generate = (\<lambda>body. []),
      generateUid = (\<lambda>k. ''_imported''),
      require_resolve = (\<lambda>request paths. None),
      write_error = (\<lambda>p. None)\<rparr>"

definition cyc_a :: module where
  "cyc_a = \<lparr>cls = JSModule, filePath = ''/p/a.js'', content = ''import b from './b.js';'',
            ast = Some [ImportDeclaration [ImportDefaultSpecifier ''b''] ''./b.js''],
            dependencies = None\<rparr>"

definition cyc_loaded :: state where
  "cyc_loaded =
     \<lparr>heap =
        [\<lparr>cls = JSModule, filePath = ''/p/a.js'', content = ''import b from './b.js';'',
          ast = Some [ImportDeclaration [ImportDefaultSpecifier ''b''] ''/p/b.js''],
          dependencies = Some [1]\<rparr>,
         \<lparr>cls = JSModule, filePath = ''/p/b.js'', content = ''import a from './a.js';'',
          ast = Some [ImportDeclaration [ImportDefaultSpecifier ''a''] ''/p/a.js''],
          dependencies = Some [0]\<rparr>],
      MODULE_CACHE = [(''/p/a.js'', 0), (''/p/b.js'', 1)],
      written = []\<rparr>"

text \<open>
  A project of a script, a second script that it imports and a stylesheet, with an HTML
  template. The parser is a table of the three texts; the printer and the identifier
  generator are stand-ins of the right type.
\<close>

definition demo_env :: env where
  "demo_env =
     \<lparr>files = [(''/p/index.js'', ''import sq from './sq.js'; import './style.css'; sq(2);''),
               (''/p/sq.js'', ''export default function(x) { return x * x; }''),
               (''/p/style.css'', ''p\<newline>a { color: red }''),
               (''/p/index.html'', ''<html><body><div id=root></div></body></html>'')],
      parseSync = map_of
        [(''import sq from './sq.js'; import './style.css'; sq(2);'',
            [ImportDeclaration [ImportDefaultSpecifier ''sq''] ''./sq.js'',
             ImportDeclaration [] ''./style.css'',
             ExpressionStatement
               (CallExpression (Identifier ''sq'' Reference) [Other ''NumericLiteral'' []])]),
         (''export default function(x) { return x * x; }'',
            [ExportDefaultDeclaration
               (FunctionDeclaration None [Identifier ''x'' NoReference] [Other ''ReturnStatement'' []])])],
      generate = (\<lambda>body. concat (map (\<lambda>n. ''statement;'') body)),
      generateUid = (\<lambda>k. ''_imported'' @ replicate k CHR ''_''),
      require_resolve = (\<lambda>request paths. None),
      write_error = (\<lambda>p. None)\<rparr>"

text \<open>The same project after every file but the template has been deleted.\<close>

definition emptied_env :: env where
  "emptied_env = demo_env\<lparr>files := [(''/p/index.html'', ''<html><body></body></html>'')]\<rparr>"

text \<open>The three modules of the project as loaded, and the two scripts as transformed.\<close>

definition demo_index :: module where
  "demo_index =
     \<lparr>cls = JSModule, filePath = ''/p/index.js'',
      content = ''import sq from './sq.js'; import './style.css'; sq(2);'',
      ast = Some [ImportDeclaration [ImportDefaultSpecifier ''sq''] ''/p/sq.js'',
                  ImportDeclaration [] ''/p/style.css'',
                  ExpressionStatement
                    (CallExpression (Identifier ''sq'' Reference) [Other ''NumericLiteral'' []])],
      dependencies = Some [1, 2]\<rparr>"

definition demo_sq :: module where
  "demo_sq =
     \<lparr>cls = JSModule, filePath = ''/p/sq.js'',
      content = ''export default function(x) { return x * x; }'',
      ast = Some [ExportDefaultDeclaration
                    (FunctionDeclaration None [Identifier ''x'' NoReference]
                       [Other ''ReturnStatement'' []])],
      dependencies = Some []\<rparr>"

definition demo_style :: module where
  "demo_style =
     \<lparr>cls = CSSModule, filePath = ''/p/style.css'',
      content = style_injection_script ''pa { color: red }'',
      ast = None, dependencies = Some []\<rparr>"

definition demo_index' :: module where
  "demo_index' =
     \<lparr>cls = JSModule, filePath = ''/p/index.js'',
      content = ''statement;statement;statement;'',
      ast = Some [require_declaration (Identifier ''_imported'' NoReference) ''/p/sq.js'',
                  require_declaration (Identifier ''_imported_'' NoReference) ''/p/style.css'',
                  ExpressionStatement
                    (CallExpression
                       (MemberExpression (Identifier ''_imported'' NoReference)
                          (StringLiteral ''default'') True)
                       [Other ''NumericLiteral'' []])],
      dependencies = Some [1, 2]\<rparr>"

definition demo_sq' :: module where
  "demo_sq' =
     \<lparr>cls = JSModule, filePath = ''/p/sq.js'',
      content = ''statement;'',
      ast = Some [exports_assignment (Identifier ''default'' NoReference)
                    (FunctionExpression None [Identifier ''x'' NoReference]
                       [Other ''ReturnStatement'' []])],
      dependencies = Some []\<rparr>"

definition demo_cache :: "(string \<times> nat) list" where
  "demo_cache = [(''/p/index.js'', 0), (''/p/sq.js'', 1), (''/p/style.css'', 2)]"

definition demo_loaded :: state where
  "demo_loaded = \<lparr>heap = [demo_index, demo_sq, demo_style], MODULE_CACHE = demo_cache, written = []\<rparr>"

definition demo_transformed :: state where
  "demo_transformed =
     \<lparr>heap = [demo_index', demo_sq', demo_style], MODULE_CACHE = demo_cache, written = []\<rparr>"

definition demo_moduleMap :: string where
  "demo_moduleMap =
     ''{'' @ moduleMap_entry demo_index' @ moduleMap_entry demo_sq' @ moduleMap_entry demo_style
       @ ''}''"

definition demo_code :: string where
  "demo_code = (case addRuntime demo_moduleMap ''/p/index.js'' of Inl e \<Rightarrow> [] | Inr c \<Rightarrow> c)"

definition demo_html :: string where
  "demo_html = ''<html><body><div id=root></div><script src=\"/bundle.js\"></script></body></html>''"

definition demo_built :: state where
  "demo_built =
     demo_transformed\<lparr>written := [(''/out/bundle.js'', demo_code), (''/out/index.html'', demo_html)]\<rparr>"

text \<open>The two scripts that import each other, as transformed, and their module map.\<close>

definition cyc_a' :: module where
  "cyc_a' = \<lparr>cls = JSModule, filePath = ''/p/a.js'', content = [],
             ast = Some [require_declaration (Identifier ''_imported'' NoReference) ''/p/b.js''],
             dependencies = Some [1]\<rparr>"

definition cyc_b' :: module where
  "cyc_b' = \<lparr>cls = JSModule, filePath = ''/p/b.js'', content = [],
             ast = Some [require_declaration (Identifier ''_imported'' NoReference) ''/p/a.js''],
             dependencies = Some [0]\<rparr>"

definition cyc_transformed :: state where
  "cyc_transformed =
     \<lparr>heap = [cyc_a', cyc_b'], MODULE_CACHE = [(''/p/a.js'', 0), (''/p/b.js'', 1)], written = []\<rparr>"

definition cyc_moduleMap :: string where
  "cyc_moduleMap = ''{'' @ moduleMap_entry cyc_a' @ moduleMap_entry cyc_b' @ ''}''"

text \<open>
  Two factories that require each other: \<open>/a.js\<close> assigns \<open>x\<close>, requires \<open>/b.js\<close> and then
  assigns \<open>y\<close>; \<open>/b.js\<close> requires \<open>/a.js\<close> and assigns \<open>z\<close>. \<open>cyc_ran\<close> is the runtime
  after the start at \<open>/a.js\<close>.
\<close>

definition cyc_modules :: "(string \<times> instr list) list" where
  "cyc_modules =
     [(''/a.js'', [Export ''x'' ''1'', Require ''/b.js'', Export ''y'' ''2'']),
      (''/b.js'', [Require ''/a.js'', Export ''z'' ''3''])]"

definition cyc_ran :: runtime where
  "cyc_ran =
     \<lparr>moduleCache = [(''/a.js'', 0), (''/b.js'', 1)],
      objects = [[(''x'', ''1''), (''y'', ''2'')], [(''z'', ''3'')]],
      trace = [Enter ''/a.js'', Enter ''/b.js'', Returned ''/a.js'' (Object 0) [(''x'', ''1'')],
               Returned ''/b.js'' (Object 1) [(''z'', ''3'')]]\<rparr>"

text \<open>
  A script that imports a picture, for which there is no loader, and the state in which the
  load of the script leaves the process: the script is registered, the picture is not.
\<close>

definition svg_env :: env where
  "svg_env =
     \<lparr>files = [(''/p/icon.js'', ''import './logo.svg';''), (''/p/logo.svg'', ''<svg/>'')],
      parseSync = map_of [(''import './logo.svg';'', [ImportDeclaration [] ''./logo.svg''])],
      generate = (\<lambda>body. []),
      generateUid = (\<lambda>k. ''_imported''),
      require_resolve = (\<lambda>request paths. None),
      write_error = (\<lambda>p. None)\<rparr>"

definition svg_failed :: state where
  "svg_failed =
     \<lparr>heap = [\<lparr>cls = JSModule, filePath = ''/p/icon.js'', content = ''import './logo.svg';'',
               ast = Some [ImportDeclaration [] ''./logo.svg''], dependencies = None\<rparr>],
      MODULE_CACHE = [(''/p/icon.js'', 0)],
      written = []\<rparr>"

text \<open>
  A script that exports an imported binding as its default export, with the export
  standing before the import, and the same script with the import first; \<open>/p/helper.js\<close>
  is the module they import. \<open>late_loaded\<close> and \<open>early_loaded\<close> are the states after
  loading the one and the other from the fresh state.
\<close>

definition late_env :: env where
  "late_env =
     \<lparr>files = [(''/p/late.js'', ''export default helper; import helper from './helper.js';''),
               (''/p/early.js'', ''import helper from './helper.js'; export default helper;''),
               (''/p/helper.js'', ''export default 1;'')],
      parseSync = map_of
        [(''export default helper; import helper from './helper.js';'',
            [ExportDefaultDeclaration (Identifier ''helper'' Reference),
             ImportDeclaration [ImportDefaultSpecifier ''helper''] ''./helper.js'']),
         (''import helper from './helper.js'; export default helper;'',
            [ImportDeclaration [ImportDefaultSpecifier ''helper''] ''./helper.js'',
             ExportDefaultDeclaration (Identifier ''helper'' Reference)]),
         (''export default 1;'', [ExportDefaultDeclaration (Other ''NumericLiteral'' [])])],
      generate = (\<lambda>body. []),
      generateUid = (\<lambda>k. ''_imported''),
      require_resolve = (\<lambda>request paths. None),
      write_error = (\<lambda>p. None)\<rparr>"

definition helper_module :: module where
  "helper_module =
     \<lparr>cls = JSModule, filePath = ''/p/helper.js'', content = ''export default 1;'',
      ast = Some [ExportDefaultDeclaration (Other ''NumericLiteral'' [])],
      dependencies = Some []\<rparr>"

definition late_loaded :: state where
  "late_loaded =
     \<lparr>heap =
        [\<lparr>cls = JSModule, filePath = ''/p/late.js'',
          content = ''export default helper; import helper from './helper.js';'',
          ast = Some [ExportDefaultDeclaration (Identifier ''helper'' Reference),
                      ImportDeclaration [ImportDefaultSpecifier ''helper''] ''/p/helper.js''],
          dependencies = Some [1]\<rparr>,
         helper_module],
      MODULE_CACHE = [(''/p/late.js'', 0), (''/p/helper.js'', 1)],
      written = []\<rparr>"

definition early_loaded :: state where
  "early_loaded =
     \<lparr>heap =
        [\<lparr>cls = JSModule, filePath = ''/p/early.js'',
          content = ''import helper from './helper.js'; export default helper;'',
          ast = Some [ImportDeclaration [ImportDefaultSpecifier ''helper''] ''/p/helper.js'',
                      ExportDefaultDeclaration (Identifier ''helper'' Reference)],
          dependencies = Some [1]\<rparr>,
         helper_module],
      MODULE_CACHE = [(''/p/early.js'', 0), (''/p/helper.js'', 1)],
      written = []\<rparr>"



section \<open>Facts about splitting text\<close>

lemma split_acc_append:
  "sep \<notin> set xs \<Longrightarrow> split_acc sep acc (xs @ sep # rest) = (acc @ xs) # split_acc sep [] rest"
  by (induction xs arbitrary: acc) auto

lemma split_acc_last: "sep \<notin> set xs \<Longrightarrow> split_acc sep acc xs = [acc @ xs]"
  by (induction xs arbitrary: acc) auto

lemma split_acc_nonempty:
  "acc \<noteq> [] \<or> (\<exists>c\<in>set s. c \<noteq> sep) \<Longrightarrow> \<exists>l\<in>set (split_acc sep acc s). l \<noteq> []"
  by (induction s arbitrary: acc) auto

lemma trim_ok: "\<exists>c\<in>set s. c \<noteq> CHR 0x0A \<Longrightarrow> \<exists>t. trim s = Inr t"
proof -
  assume "\<exists>c\<in>set s. c \<noteq> CHR 0x0A"
  then have "\<exists>l\<in>set (str_split CHR 0x0A s). l \<noteq> []"
    unfolding str_split_def by (intro split_acc_nonempty) simp
  then have "filter (\<lambda>l. l \<noteq> []) (str_split CHR 0x0A s) \<noteq> []"
    by (simp add: filter_empty_conv)
  then show ?thesis
    unfolding trim_def
    by (cases "filter (\<lambda>l. l \<noteq> []) (str_split CHR 0x0A s)") (auto simp: Let_def)
qed

lemma trim_ok_literal: "c \<noteq> CHR 0x0A \<Longrightarrow> \<exists>t. trim (a @ (c # b) @ d) = Inr t"
  by (rule trim_ok) auto


section \<open>Facts about loading\<close>

text \<open>
  Every step of loading relates the state before to the state after by any reflexive and
  transitive relation that holds across the three writes: registering a new module,
  setting the dependencies of a module, and rewriting the source of an import.
\<close>

lemma load_preserves:
  assumes Rrefl: "\<And>s. R s s"
    and Rtrans: "\<And>s1 s2 s3. R s1 s2 \<Longrightarrow> R s2 s3 \<Longrightarrow> R s1 s3"
    and alloc: "\<And>env s p c m. map_of (MODULE_CACHE s) p = None \<Longrightarrow> new_Module env c p = Inr m \<Longrightarrow>
                  R s (s\<lparr>heap := heap s @ [m],
                         MODULE_CACHE := AList.update p (length (heap s)) (MODULE_CACHE s)\<rparr>)"
    and deps: "\<And>s this ds. R s (set_dependencies s this ds)"
    and src: "\<And>s this i v. R s (set_import_source s this i v)"
  shows "R s (snd (createModule env s p))"
    and "R s (snd (initDependencies env s this))"
    and "R s (snd (findDependencies env s this requester imps ds))"
proof (induct env s p and env s this and env s this requester imps ds
       rule: createModule_initDependencies_findDependencies.induct)
  case (1 env s p)
  show ?case
  proof (cases "map_of (MODULE_CACHE s) p = None")
    case False
    then show ?thesis using Rrefl by auto
  next
    case True
    show ?thesis
    proof (cases "MODULE_LOADERS (path_extname p)")
      case None
      then show ?thesis using True Rrefl by simp
    next
      case (Some c)
      show ?thesis
      proof (cases "new_Module env c p")
        case (Inl e)
        then show ?thesis using True Some Rrefl by simp
      next
        case (Inr m)
        let ?s1 = "s\<lparr>heap := heap s @ [m],
                       MODULE_CACHE := AList.update p (length (heap s)) (MODULE_CACHE s)\<rparr>"
        have "R ?s1 (snd (initDependencies env ?s1 (length (heap s))))"
          using "1"[OF True refl Some Inr refl refl] assms by blast
        with alloc[OF True Inr]
        have "R s (snd (initDependencies env ?s1 (length (heap s))))"
          by (rule Rtrans)
        then show ?thesis
          using True Some Inr by (simp add: Let_def snd_propagate)
      qed
    qed
  qed
next
  case (2 env s this)
  show ?case
  proof (cases "heap_get s this")
    case None
    then show ?thesis using Rrefl by simp
  next
    case (Some m)
    show ?thesis
    proof (cases "cls m")
      case CSSModule
      then show ?thesis using Some deps by simp
    next
      case JSModule
      show ?thesis
      proof (cases "ast m")
        case None
        then show ?thesis using Some JSModule Rrefl by simp
      next
        case (Some body)
        have ih: "R s (snd (findDependencies env s this (filePath m) (importDeclarations body) []))"
          using "2"[OF \<open>heap_get s this = Some m\<close> JSModule Some] assms by blast
        obtain r s' where
          r: "findDependencies env s this (filePath m) (importDeclarations body) [] = (r, s')"
          by (cases "findDependencies env s this (filePath m) (importDeclarations body) []")
        show ?thesis
        proof (cases r)
          case (Inl e)
          then show ?thesis using ih r \<open>heap_get s this = Some m\<close> JSModule Some by simp
        next
          case (Inr ds)
          have "R s (set_dependencies s' this ds)"
            using ih r deps Rtrans by (metis snd_conv)
          then show ?thesis using Inr r \<open>heap_get s this = Some m\<close> JSModule Some by simp
        qed
      qed
    qed
  qed
next
  case (3 env s this requester ds)
  then show ?case using Rrefl by simp
next
  case (4 env s this requester i importDeclaration rest ds)
  show ?case
  proof (cases "resolveRequest env requester (source_value importDeclaration)")
    case (Inl e)
    then show ?thesis using Rrefl by simp
  next
    case (Inr b)
    have ih1: "R s (snd (createModule env s b))"
      using "4"(1)[OF refl Inr] assms by blast
    show ?thesis
    proof (cases "createModule env s b")
      case (Pair xa y)
      show ?thesis
      proof (cases xa)
        case (Inl e)
        then show ?thesis using Inr Pair ih1 by simp
      next
        case (Inr d)
        have ih2: "R (set_import_source y this i b)
                     (snd (findDependencies env (set_import_source y this i b) this requester rest (ds @ [d])))"
          using "4"(2)[OF refl \<open>resolveRequest _ _ _ = Inr b\<close> Pair[symmetric] Inr] assms by blast
        have "R s y" using ih1 Pair by simp
        then have "R s (set_import_source y this i b)" using src Rtrans by blast
        then have "R s (snd (findDependencies env (set_import_source y this i b) this requester rest (ds @ [d])))"
          using ih2 Rtrans by blast
        then show ?thesis using \<open>resolveRequest _ _ _ = Inr b\<close> Pair Inr by simp
      qed
    qed
  qed
qed


lemma map_of_update_le:
  "map_of al k = None \<Longrightarrow> map_of al \<subseteq>\<^sub>m map_of (AList.update k v al)"
  by (simp add: update_conv' map_le_def dom_def)

lemma cache_entries_kept:
  "map_of (MODULE_CACHE s) \<subseteq>\<^sub>m map_of (MODULE_CACHE (snd (createModule env s p)))"
  by (rule load_preserves(1)[where R = "\<lambda>s s'. map_of (MODULE_CACHE s) \<subseteq>\<^sub>m map_of (MODULE_CACHE s')"])
     (auto intro: map_le_trans map_of_update_le)

lemmas load_eval =
  MODULE_LOADERS_def path_extname_def new_Module_def readFileSync_def heap_get_def heap_set_def
  set_dependencies_def set_import_source_def importDeclarations_def MODULE_CACHE_get_def
  resolveRequest_def path_join_def path_dirname_def path_normalize_def str_split_def
  enumerate_eq_zip Let_def CSSModule_transform_def trim_def is_space_def

lemma cyc_new: "new_Module cyc_env JSModule ''/p/a.js'' = Inr cyc_a"
  by (simp add: cyc_env_def cyc_a_def new_Module_def readFileSync_def)

lemma cyc_run: "createModule cyc_env initial_state ''/p/a.js'' = (Inr 0, cyc_loaded)"
  by (simp add: cyc_env_def initial_state_def cyc_loaded_def load_eval)


section \<open>Facts about bundling and building\<close>

text \<open>From here on the equations of the loader are unfolded only where a proof asks for them.\<close>

declare createModule.simps [simp del] initDependencies.simps [simp del]

lemma heap_set_written [simp]: "written (heap_set s r f) = written s"
  by (simp add: heap_set_def)

lemma createModule_written [simp]: "written (snd (createModule env s p)) = written s"
  by (rule load_preserves(1)[where R = "\<lambda>s s'. written s' = written s"])
     (auto simp: set_dependencies_def set_import_source_def)

lemma createModule_result:
  "createModule env s p = (Inr r, s') \<Longrightarrow> map_of (MODULE_CACHE s') p = Some r"
  by (auto simp: createModule.simps MODULE_CACHE_get_def Let_def
           split: if_splits option.splits sum.splits prod.splits)

lemma toModuleMap_loop_frame:
  "toModuleMap_loop env s modules acc = (r, s') \<Longrightarrow>
     written s' = written s \<and> MODULE_CACHE s' = MODULE_CACHE s"
  by (induction env s modules acc rule: toModuleMap_loop.induct)
     (auto split: option.splits sum.splits)

lemma toModuleMap_frame:
  "toModuleMap env s modules = (r, s') \<Longrightarrow>
     written s' = written s \<and> MODULE_CACHE s' = MODULE_CACHE s"
  unfolding toModuleMap_def
  by (auto split: prod.splits sum.splits dest: toModuleMap_loop_frame)

lemma bundle_graph_frame:
  "bundle_graph env s graph = (r, s') \<Longrightarrow>
     written s' = written s \<and> MODULE_CACHE s' = MODULE_CACHE s"
  unfolding bundle_graph_def
  by (auto split: prod.splits sum.splits option.splits dest: toModuleMap_frame)

lemma write_all_cache [simp]: "MODULE_CACHE (snd (write_all env s out fs)) = MODULE_CACHE s"
  by (induction env s out fs rule: write_all.induct)
     (auto simp: writeFileSync_def split: option.splits)

lemma write_all_cache_kept:
  "write_all env s out fs = (r, s') \<Longrightarrow> MODULE_CACHE s' = MODULE_CACHE s"
  using write_all_cache[of env s out fs] by simp

lemma write_all_written:
  "write_all env s out fs = (Inr (), s') \<Longrightarrow>
     written s' = written s @ map (\<lambda>f. (path_join [out, fst f], snd f)) fs"
  by (induction env s out fs rule: write_all.induct)
     (auto simp: writeFileSync_def split: option.splits)

text \<open>
  The write loop stops at the write that throws and keeps the files written before it: a
  build that throws there can leave \<open>bundle.js\<close> behind.
\<close>

lemma write_all_stops:
  assumes "write_error env (path_join [out, fst f]) = None"
    and "write_error env (path_join [out, fst g]) = Some e"
  shows "write_all env s out [f, g]
           = (Inl e, s\<lparr>written := written s @ [(path_join [out, fst f], snd f)]\<rparr>)"
  using assms by (simp add: writeFileSync_def)

text \<open>
  A build that throws while it loads the graph, bundles or makes the HTML file throws
  before the first write.
\<close>

lemma build_graph_failure:
  assumes "createDependencyGraph env s entry = (Inl e, s1)"
  shows "build env s entry out html = (Inl e, s1)" and "written s1 = written s"
proof -
  show "build env s entry out html = (Inl e, s1)"
    using assms by (simp add: build_def)
  show "written s1 = written s"
    using assms createModule_written[of env s entry] by (simp add: createDependencyGraph_def)
qed

lemma build_without_template:
  "\<exists>e s'. build env s entry out None = (Inl e, s') \<and> written s' = written s"
proof -
  obtain r1 s1 where c: "createModule env s entry = (r1, s1)" by (cases "createModule env s entry")
  have w1: "written s1 = written s" using createModule_written[of env s entry] c by simp
  show ?thesis
  proof (cases r1)
    case (Inl e1)
    then show ?thesis using c w1 by (simp add: build_def createDependencyGraph_def)
  next
    case (Inr g)
    obtain r2 s2 where b: "bundle_graph env s1 g = (r2, s2)" by (cases "bundle_graph env s1 g")
    have w2: "written s2 = written s" using bundle_graph_frame[OF b] w1 by simp
    show ?thesis using c Inr b w2
      by (cases r2) (simp_all add: build_def createDependencyGraph_def generateHTMLTemplate_def)
  qed
qed

lemma build_cache_kept:
  assumes "build env s entry out html = (r, s')"
  shows "map_of (MODULE_CACHE s) \<subseteq>\<^sub>m map_of (MODULE_CACHE s')"
proof -
  obtain r1 s1 where c: "createModule env s entry = (r1, s1)" by (cases "createModule env s entry")
  have k1: "map_of (MODULE_CACHE s) \<subseteq>\<^sub>m map_of (MODULE_CACHE s1)"
    using cache_entries_kept[of s env entry] c by simp
  show ?thesis
  proof (cases r1)
    case (Inl e1)
    then show ?thesis using assms c k1 by (simp add: build_def createDependencyGraph_def)
  next
    case (Inr g)
    obtain r2 s2 where b: "bundle_graph env s1 g = (r2, s2)" by (cases "bundle_graph env s1 g")
    have k2: "MODULE_CACHE s2 = MODULE_CACHE s1" using bundle_graph_frame[OF b] by simp
    have "MODULE_CACHE s' = MODULE_CACHE s2"
      using assms c Inr b
      by (auto simp: build_def createDependencyGraph_def split: sum.splits
               dest: write_all_cache_kept)
    then show ?thesis using k1 k2 by simp
  qed
qed

lemma starts_with_append: "starts_with (b @ c) b"
  by (induction b) auto

lemma str_includes_append: "str_includes (a @ b @ c) b"
proof (induction a)
  case Nil
  then show ?case by (cases "b @ c") (auto simp: starts_with_append, metis starts_with_append)
next
  case (Cons x a)
  then show ?case by simp
qed


section \<open>Facts about the stylesheet transform, the runtime text and the example project\<close>

lemma CSSModule_transform_text:
  "CSSModule_transform c = Inr (style_injection_script (filter (\<lambda>x. x \<noteq> CHR 0x0A) c))"
proof -
  let ?t = "filter (\<lambda>x. x \<noteq> CHR 0x0A) c"
  let ?l1 = "''      const content = '' @ [CHR 0x27] @ ?t @ [CHR 0x27] @ '';''"
  have nl: "CHR 0x0A \<notin> set ?l1" by auto
  have sp: "str_split CHR 0x0A (''\<newline>      const content = '' @ [CHR 0x27] @ ?t @
           [CHR 0x27] @ '';\<newline>'' @
           ''      const style = document.createElement('style');\<newline>'' @
           ''      style.type = 'text/css';\<newline>'' @
           ''      if (style.styleSheet) style.styleSheet.cssText = content;\<newline>'' @
           ''      else style.appendChild(document.createTextNode(content));\<newline>'' @
           ''      document.head.appendChild(style);\<newline>'' @
           ''    '') =
        [[], ?l1, ''      const style = document.createElement('style');'',
           ''      style.type = 'text/css';'',
           ''      if (style.styleSheet) style.styleSheet.cssText = content;'',
           ''      else style.appendChild(document.createTextNode(content));'',
           ''      document.head.appendChild(style);'',
           ''    '']"
    using split_acc_append[OF nl, of "[]"] by (simp add: str_split_def)
  have tw: "takeWhile is_space ?l1 = ''      ''"
    by (simp add: is_space_def)
  show ?thesis
    unfolding CSSModule_transform_def trim_def sp
    using tw by (simp add: style_injection_script_def is_space_def)
qed

lemma addRuntime_ok: "\<exists>moduleCode. addRuntime moduleMap entryPoint = Inr moduleCode"
  unfolding addRuntime_def by (rule trim_ok_literal) simp

lemmas demo_eval =
  MODULE_LOADERS_def path_extname_def new_Module_def readFileSync_def heap_get_def heap_set_def
  set_dependencies_def set_import_source_def importDeclarations_def MODULE_CACHE_get_def
  resolveRequest_def path_join_def path_dirname_def path_normalize_def str_split_def
  enumerate_eq_zip Let_def CSSModule_transform_text

lemma demo_env_fields:
  "generate demo_env body = concat (map (\<lambda>n. ''statement;'') body)"
  "generateUid demo_env k = ''_imported'' @ replicate k CHR ''_''"
  "generate emptied_env body = concat (map (\<lambda>n. ''statement;'') body)"
  "generateUid emptied_env k = ''_imported'' @ replicate k CHR ''_''"
  "files emptied_env = [(''/p/index.html'', ''<html><body></body></html>'')]"
  "write_error demo_env p = None"
  "write_error emptied_env p = None"
  by (simp_all add: demo_env_def emptied_env_def)

lemma demo_load: "createModule demo_env initial_state ''/p/index.js'' = (Inr 0, demo_loaded)"
  by (simp add: demo_env_def initial_state_def demo_loaded_def demo_index_def demo_sq_def
        demo_style_def demo_cache_def demo_eval createModule.simps initDependencies.simps)

lemma demo_collect: "collectModules demo_loaded 0 = Inr [0, 1, 2]"
  by (simp add: collectModules_def demo_loaded_def demo_index_def demo_sq_def demo_style_def heap_get_def)

lemma demo_toModuleMap: "toModuleMap demo_env demo_loaded [0, 1, 2] = (Inr demo_moduleMap, demo_transformed)"
  by (simp add: toModuleMap_def demo_loaded_def demo_transformed_def demo_index_def demo_sq_def
        demo_style_def demo_index'_def demo_sq'_def demo_moduleMap_def heap_get_def heap_set_def
        transformModuleInterface_def demo_env_fields Let_def)

lemma demo_addRuntime: "addRuntime demo_moduleMap ''/p/index.js'' = Inr demo_code"
  using addRuntime_ok[of demo_moduleMap "''/p/index.js''"] by (auto simp: demo_code_def)

lemma demo_bundle:
  "bundle_graph demo_env demo_loaded 0 = (Inr [(''bundle.js'', demo_code)], demo_transformed)"
  unfolding bundle_graph_def demo_collect sum.case demo_toModuleMap prod.case list.case
  by (simp add: demo_transformed_def heap_get_def demo_index'_def demo_addRuntime)

lemma demo_html_eval:
  "generateHTMLTemplate demo_env (Some ''/p/index.html'') [(''bundle.js'', demo_code)]
     = Inr (''index.html'', demo_html)"
  by (simp add: generateHTMLTemplate_def readFileSync_def demo_env_def str_replace_def
        script_tag_def demo_html_def)

lemma demo_build:
  "build demo_env initial_state ''/p/index.js'' ''/out'' (Some ''/p/index.html'')
     = (Inr (), demo_built)"
  unfolding build_def createDependencyGraph_def demo_load prod.case sum.case demo_bundle
    demo_html_eval
  by (simp add: writeFileSync_def demo_built_def demo_transformed_def path_join_def
        path_normalize_def str_split_def Let_def demo_env_fields)

lemma demo_rebuild_graph:
  "createDependencyGraph emptied_env demo_built ''/p/index.js'' = (Inr 0, demo_built)"
  by (simp add: createDependencyGraph_def demo_built_def demo_transformed_def demo_cache_def
        MODULE_CACHE_get_def createModule.simps)

lemma demo_fresh_fails:
  "build emptied_env initial_state ''/p/index.js'' ''/out'' (Some ''/p/index.html'')
     = (Inl (ENOENT ''/p/index.js''), initial_state)"
  by (simp add: build_def createDependencyGraph_def initial_state_def demo_env_fields
        MODULE_LOADERS_def path_extname_def new_Module_def readFileSync_def Let_def
        createModule.simps)

lemma demo_recollect: "collectModules demo_built 0 = Inr [0, 1, 2]"
  by (simp add: collectModules_def demo_built_def demo_transformed_def demo_index'_def demo_sq'_def
        demo_style_def heap_get_def)

lemma demo_retransform:
  "toModuleMap emptied_env demo_built [0, 1, 2] = (Inr demo_moduleMap, demo_built)"
  by (simp add: toModuleMap_def demo_built_def demo_transformed_def
        demo_style_def demo_index'_def demo_sq'_def demo_moduleMap_def heap_get_def heap_set_def
        transformModuleInterface_def demo_env_fields Let_def
        require_declaration_def exports_assignment_def)

lemma demo_rebuild:
  "fst (build emptied_env demo_built ''/p/index.js'' ''/out'' (Some ''/p/index.html'')) = Inr ()"
  unfolding build_def demo_rebuild_graph prod.case sum.case bundle_graph_def demo_recollect
    demo_retransform list.case
  by (simp add: demo_built_def demo_transformed_def heap_get_def demo_index'_def demo_addRuntime
        generateHTMLTemplate_def readFileSync_def demo_env_fields writeFileSync_def)


section \<open>Loading terminates on every import graph\<close>

text \<open>
  Claim C1. For every import graph, also a cyclic one, loading from the entry file
  terminates. The theorem has three parts. First, every call of \<open>createModule\<close> lies in
  the domain on which the recursion of \<open>createModule\<close>, \<open>initDependencies\<close> and
  \<open>findDependencies\<close> is well-founded: the domain predicate of a recursive definition is
  the accessible part of its call relation, so an argument in it means that no chain of
  recursive calls from there is infinite. Second, a request for a path that is already
  registered returns the registered module and changes nothing, whether or not that
  module's dependencies have been initialised. Third, a module that is not registered is
  registered before its dependencies are initialised: the call is the initialisation run
  in a state in which the path is a key of the cache.
\<close>

theorem createModule_terminates:
  "createModule_initDependencies_findDependencies_dom (Inl (env, s, p))
   \<and> (\<forall>r. map_of (MODULE_CACHE s) p = Some r \<longrightarrow> createModule env s p = (Inr r, s))
   \<and> (\<forall>c m. map_of (MODULE_CACHE s) p = None \<and> MODULE_LOADERS (path_extname p) = Some c
             \<and> new_Module env c p = Inr m \<longrightarrow>
        (let this = length (heap s);
             s1 = s\<lparr>heap := heap s @ [m], MODULE_CACHE := AList.update p this (MODULE_CACHE s)\<rparr>
         in map_of (MODULE_CACHE s1) p = Some this
            \<and> createModule env s p =
                (case initDependencies env s1 this of
                   (Inl e, s2) \<Rightarrow> (Inl e, s2)
                 | (Inr u, s2) \<Rightarrow> MODULE_CACHE_get s2 p)))"
  using load_total by (auto simp: createModule.simps MODULE_CACHE_get_def update_conv' Let_def)

text \<open>
  The two files that import each other: loading \<open>/p/a.js\<close> from the fresh state ends with
  both modules registered, each the dependency of the other; the load of \<open>/p/a.js\<close> is
  the initialisation of its dependencies in the state that already has it registered; and
  a later request for \<open>/p/b.js\<close> answers from the cache.
\<close>

theorem createModule_terminates_witness:
  "createModule_initDependencies_findDependencies_dom (Inl (cyc_env, initial_state, ''/p/a.js''))
   \<and> createModule cyc_env initial_state ''/p/a.js'' = (Inr 0, cyc_loaded)
   \<and> new_Module cyc_env JSModule ''/p/a.js'' = Inr cyc_a
   \<and> initDependencies cyc_env \<lparr>heap = [cyc_a], MODULE_CACHE = [(''/p/a.js'', 0)], written = []\<rparr> 0
        = (Inr (), cyc_loaded)
   \<and> map_of (MODULE_CACHE cyc_loaded) ''/p/b.js'' = Some 1
   \<and> createModule cyc_env cyc_loaded ''/p/b.js'' = (Inr 1, cyc_loaded)"
proof -
  have miss: "map_of (MODULE_CACHE initial_state) ''/p/a.js'' = None"
    and ldr: "MODULE_LOADERS (path_extname ''/p/a.js'') = Some JSModule"
    by (simp_all add: initial_state_def MODULE_LOADERS_def path_extname_def)
  have hit: "map_of (MODULE_CACHE cyc_loaded) ''/p/b.js'' = Some 1"
    by (simp add: cyc_loaded_def)
  from createModule_terminates[of cyc_env initial_state "''/p/a.js''"] miss ldr cyc_new
  have dom: "createModule_initDependencies_findDependencies_dom
               (Inl (cyc_env, initial_state, ''/p/a.js''))"
    and init: "createModule cyc_env initial_state ''/p/a.js'' =
      (case initDependencies cyc_env
              \<lparr>heap = [cyc_a], MODULE_CACHE = [(''/p/a.js'', 0)], written = []\<rparr> 0 of
         (Inl e, s2) \<Rightarrow> (Inl e, s2)
       | (Inr u, s2) \<Rightarrow> MODULE_CACHE_get s2 ''/p/a.js'')"
    by (simp_all add: Let_def initial_state_def)
  have "initDependencies cyc_env
          \<lparr>heap = [cyc_a], MODULE_CACHE = [(''/p/a.js'', 0)], written = []\<rparr> 0 = (Inr (), cyc_loaded)"
    by (simp add: cyc_env_def cyc_a_def cyc_loaded_def load_eval createModule.simps
          initDependencies.simps)
  moreover from createModule_terminates[of cyc_env cyc_loaded "''/p/b.js''"] hit
  have "createModule cyc_env cyc_loaded ''/p/b.js'' = (Inr 1, cyc_loaded)"
    by blast
  ultimately show ?thesis using dom cyc_run cyc_new hit by simp
qed


section \<open>One module per path, one entry per reachable path\<close>

lemma new_Module_filePath: "new_Module env c p = Inr m \<Longrightarrow> filePath m = p"
  by (auto simp: new_Module_def split: sum.splits module_class.splits option.splits)

lemma unique_alloc:
  assumes "unique_modules s" "map_of (MODULE_CACHE s) p = None" "filePath m = p"
  shows "unique_modules (s\<lparr>heap := heap s @ [m],
                            MODULE_CACHE := AList.update p (length (heap s)) (MODULE_CACHE s)\<rparr>)"
proof -
  let ?h = "heap s @ [m]"
  let ?c = "AList.update p (length (heap s)) (MODULE_CACHE s)"
  have c: "map_of ?c = (map_of (MODULE_CACHE s))(p \<mapsto> length (heap s))"
    by (simp add: update_conv')
  have 1: "r < length ?h \<and> filePath (?h ! r) = q" if "map_of ?c q = Some r" for q r
  proof (cases "q = p")
    case True
    then have "r = length (heap s)" using that c by simp
    then show ?thesis using True assms(3) by simp
  next
    case False
    then have "map_of (MODULE_CACHE s) q = Some r" using that c by simp
    then have "r < length (heap s) \<and> filePath (heap s ! r) = q"
      using assms(1) unfolding unique_modules_def by blast
    then show ?thesis by (simp add: nth_append)
  qed
  have 2: "map_of ?c (filePath (?h ! r)) = Some r" if "r < length ?h" for r
  proof (cases "r < length (heap s)")
    case True
    then have k: "map_of (MODULE_CACHE s) (filePath (heap s ! r)) = Some r"
      using assms(1) unfolding unique_modules_def by blast
    then have "filePath (heap s ! r) \<noteq> p" using assms(2) by auto
    then show ?thesis using True k c by (simp add: nth_append)
  next
    case False
    then have "r = length (heap s)" using that by simp
    then show ?thesis using assms(3) c by simp
  qed
  show ?thesis unfolding unique_modules_def using 1 2 by simp
qed

lemma filePath_list_update:
  assumes "\<And>m. filePath (f m) = filePath m" "ra < length h"
  shows "filePath (h[r := f (h ! r)] ! ra) = filePath (h ! ra)"
  using assms by (cases "ra = r") simp_all

lemma unique_heap_set:
  assumes "unique_modules s" "\<And>m. filePath (f m) = filePath m"
  shows "unique_modules (heap_set s r f)"
  using assms(1) filePath_list_update[of f _ "heap s" r, OF assms(2)]
  unfolding unique_modules_def heap_set_def
  by simp

lemma unique_modules_kept:
  "unique_modules s \<Longrightarrow> unique_modules (snd (createModule env s p))"
proof -
  have "unique_modules s \<longrightarrow> unique_modules (snd (createModule env s p))"
    by (rule load_preserves(1)[where R = "\<lambda>s s'. unique_modules s \<longrightarrow> unique_modules s'"])
       (auto simp: set_dependencies_def set_import_source_def
             intro: unique_alloc unique_heap_set dest: new_Module_filePath)
  then show "unique_modules s \<Longrightarrow> unique_modules (snd (createModule env s p))" by simp
qed

lemma unique_modules_distinct:
  assumes "unique_modules s" "r1 < length (heap s)" "r2 < length (heap s)"
    "filePath (heap s ! r1) = filePath (heap s ! r2)"
  shows "r1 = r2"
  using assms unfolding unique_modules_def by (metis option.inject)

lemma collect_sound:
  shows "collect s r vis = Inr vis' \<Longrightarrow>
           (\<exists>new. vis' = vis @ new \<and> (distinct vis \<longrightarrow> distinct vis')
                  \<and> set new \<subseteq> reachable s r \<and> deps_in s (set new) (set vis')) \<and> r \<in> set vis'"
    and "collect_forEach s ds vis = Inr vis' \<Longrightarrow>
           (\<exists>new. vis' = vis @ new \<and> (distinct vis \<longrightarrow> distinct vis')
                  \<and> set new \<subseteq> (\<Union>d\<in>set ds. reachable s d) \<and> deps_in s (set new) (set vis'))
           \<and> set ds \<subseteq> set vis'"
proof (induct s r vis and s ds vis arbitrary: vis' and vis' rule: collect_collect_forEach.induct)
  case (1 s module modules)
  show ?case
  proof (cases "module \<in> set modules")
    case True
    then have "vis' = modules" using "1.prems" by simp
    then show ?thesis using True by (auto simp: deps_in_def)
  next
    case False
    then obtain m ds where m: "heap_get s module = Some m" "dependencies m = Some ds"
        and r: "collect_forEach s ds (modules @ [module]) = Inr vis'"
      using "1.prems" by (auto split: option.splits)
    from "1.hyps"[OF False m r] obtain new where
      n: "vis' = (modules @ [module]) @ new" "distinct (modules @ [module]) \<longrightarrow> distinct vis'"
         "set new \<subseteq> (\<Union>d\<in>set ds. reachable s d)" "deps_in s (set new) (set vis')"
      and sub: "set ds \<subseteq> set vis'"
      by blast
    have reach: "set new \<subseteq> reachable s module"
    proof
      fix x assume "x \<in> set new"
      then obtain d where d: "d \<in> set ds" "x \<in> reachable s d" using n(3) by blast
      have "d \<in> reachable s module"
        using reachable.step[OF reachable.root m d(1)] .
      moreover have "y \<in> reachable s d \<Longrightarrow> d \<in> reachable s module \<Longrightarrow> y \<in> reachable s module" for y
        by (induction rule: reachable.induct) (auto intro: reachable.step)
      ultimately show "x \<in> reachable s module" using d(2) by blast
    qed
    have "deps_in s (set (module # new)) (set vis')"
      using n(4) m sub by (auto simp: deps_in_def)
    then show ?thesis
      using n(1,2) reach False
      by (intro conjI exI[of _ "module # new"]) (auto intro: reachable.root)
  qed
next
  case (2 s modules)
  then show ?case by (auto simp: deps_in_def)
next
  case (3 s dependency rest modules)
  from "3.prems" obtain mid where
    c: "collect s dependency modules = Inr mid" and r: "collect_forEach s rest mid = Inr vis'"
    by (auto split: sum.splits)
  from "3.hyps"(1)[OF c] obtain new1 where
    a: "mid = modules @ new1" "distinct modules \<longrightarrow> distinct mid"
       "set new1 \<subseteq> reachable s dependency" "deps_in s (set new1) (set mid)" "dependency \<in> set mid"
    by blast
  from "3.hyps"(2)[OF c r] obtain new2 where
    b: "vis' = mid @ new2" "distinct mid \<longrightarrow> distinct vis'"
       "set new2 \<subseteq> (\<Union>d\<in>set rest. reachable s d)" "deps_in s (set new2) (set vis')"
       "set rest \<subseteq> set vis'"
    by blast
  have "deps_in s (set (new1 @ new2)) (set vis')"
    using a(4) b(1,4) unfolding deps_in_def by fastforce
  then show ?case
    using a b
    by (intro conjI exI[of _ "new1 @ new2"]) auto
qed

lemma collectModules_reachable:
  assumes "collectModules s g = Inr modules"
  shows "distinct modules \<and> set modules = reachable s g
         \<and> (\<forall>r\<in>set modules. r < length (heap s))"
proof -
  from collect_sound(1)[OF assms[unfolded collectModules_def]]
  have d: "distinct modules" and sub: "set modules \<subseteq> reachable s g"
    and cl: "deps_in s (set modules) (set modules)" and g: "g \<in> set modules"
    by auto
  have "x \<in> reachable s g \<Longrightarrow> x \<in> set modules" for x
  proof (induction rule: reachable.induct)
    case root
    then show ?case using g .
  next
    case (step r m ds d)
    then show ?case using cl unfolding deps_in_def by fastforce
  qed
  moreover have "\<forall>r\<in>set modules. r < length (heap s)"
    using cl unfolding deps_in_def heap_get_def by (auto split: if_splits)
  ultimately show ?thesis using d sub by blast
qed


lemma transformModuleInterface_filePath:
  "transformModuleInterface env m = Inr m' \<Longrightarrow> filePath m' = filePath m"
  by (auto simp: transformModuleInterface_def split: module_class.splits option.splits sum.splits)

lemma toModuleMap_loop_text:
  "toModuleMap_loop env s modules acc = (Inr mm, s') \<Longrightarrow> distinct modules \<Longrightarrow>
   \<forall>r\<in>set modules. r < length (heap s) \<Longrightarrow>
     mm = acc @ concat (map (\<lambda>r. moduleMap_entry (heap s' ! r)) modules)
     \<and> length (heap s') = length (heap s)
     \<and> (\<forall>r<length (heap s). filePath (heap s' ! r) = filePath (heap s ! r))
     \<and> (\<forall>r. r \<notin> set modules \<longrightarrow> heap s' ! r = heap s ! r)"
proof (induction env s modules acc arbitrary: mm s' rule: toModuleMap_loop.induct)
  case (1 env s moduleMap)
  then show ?case by simp
next
  case (2 env s module rest moduleMap)
  from "2.prems"(3) have v: "module < length (heap s)" by simp
  then have g: "heap_get s module = Some (heap s ! module)" by (simp add: heap_get_def)
  from "2.prems"(1) g obtain m' where
    t: "transformModuleInterface env (heap s ! module) = Inr m'"
    and r: "toModuleMap_loop env (heap_set s module (\<lambda>old. m')) rest
              (moduleMap @ moduleMap_entry m') = (Inr mm, s')"
    by (auto split: sum.splits)
  let ?s1 = "heap_set s module (\<lambda>old. m')"
  have l1: "length (heap ?s1) = length (heap s)" by (simp add: heap_set_def)
  have d: "distinct rest" "module \<notin> set rest" using "2.prems"(2) by auto
  have "\<forall>r\<in>set rest. r < length (heap ?s1)" using "2.prems"(3) l1 by simp
  from "2.IH"[OF g t r d(1) this]
  have ih: "mm = (moduleMap @ moduleMap_entry m') @ concat (map (\<lambda>r. moduleMap_entry (heap s' ! r)) rest)"
    "length (heap s') = length (heap ?s1)"
    "\<forall>r<length (heap ?s1). filePath (heap s' ! r) = filePath (heap ?s1 ! r)"
    "\<forall>r. r \<notin> set rest \<longrightarrow> heap s' ! r = heap ?s1 ! r"
    by auto
  have at: "heap s' ! module = m'"
    using ih(4) d(2) v by (simp add: heap_set_def)
  have fp: "filePath (heap ?s1 ! r) = filePath (heap s ! r)" if "r < length (heap s)" for r
    using that transformModuleInterface_filePath[OF t]
    by (cases "r = module") (simp_all add: heap_set_def)
  have other: "heap ?s1 ! r = heap s ! r" if "r \<noteq> module" for r
    using that by (simp add: heap_set_def)
  show ?case
    using ih at fp other l1 by auto
qed

lemma toModuleMap_text:
  assumes "toModuleMap env s modules = (Inr mm, s')" "distinct modules"
    "\<forall>r\<in>set modules. r < length (heap s)"
  shows "mm = ''{'' @ concat (map (\<lambda>r. moduleMap_entry (heap s' ! r)) modules) @ ''}''
     \<and> (\<forall>r<length (heap s). filePath (heap s' ! r) = filePath (heap s ! r))"
proof -
  from assms(1) obtain mm0 where
    l: "toModuleMap_loop env s modules ''{'' = (Inr mm0, s')" and m: "mm = mm0 @ ''}''"
    by (auto simp: toModuleMap_def split: prod.splits sum.splits)
  from toModuleMap_loop_text[OF l assms(2,3)] m show ?thesis by simp
qed

text \<open>
  Claim C2. In a state with one module per path (the state of a fresh process is one),
  after \<open>createModule\<close> has returned a module for a path: no two objects of the heap have
  the same path; a repeated call for the path returns the same object and changes
  nothing; and the module map built from that module is the concatenation of one entry
  for each collected module, in the order of collection, the entry of a module being
  \<open>"<path>": function(exports, require) { <content> },\<close> with the path of the module as
  the key and its content, as transformed, as the body; where the paths of the
  collected modules are pairwise different and are exactly the paths of the modules
  reachable from it along the dependencies, however many modules import a path.
\<close>

theorem one_module_per_path:
  assumes "unique_modules s"
    and "createModule env s p = (Inr g, s1)"
  shows "(\<forall>r1 r2. r1 < length (heap s1) \<and> r2 < length (heap s1)
            \<and> filePath (heap s1 ! r1) = filePath (heap s1 ! r2) \<longrightarrow> r1 = r2)
     \<and> (\<forall>env'. createModule env' s1 p = (Inr g, s1))
     \<and> (\<forall>modules moduleMap s2.
           collectModules s1 g = Inr modules \<and> toModuleMap env s1 modules = (Inr moduleMap, s2) \<longrightarrow>
             moduleMap =
               ''{'' @ concat (map (\<lambda>r. ''\"'' @ filePath (heap s1 ! r)
                                         @ ''\": function(exports, require) { ''
                                         @ content (heap s2 ! r) @ ''\<newline> },'') modules) @ ''}''
             \<and> map (\<lambda>r. filePath (heap s2 ! r)) modules = map (\<lambda>r. filePath (heap s1 ! r)) modules
             \<and> distinct (map (\<lambda>r. filePath (heap s1 ! r)) modules)
             \<and> set (map (\<lambda>r. filePath (heap s1 ! r)) modules)
                 = (\<lambda>r. filePath (heap s1 ! r)) ` reachable s1 g)"
proof (intro conjI allI impI)
  have u1: "unique_modules s1"
    using unique_modules_kept[OF assms(1), of env p] assms(2) by simp
  {
    fix r1 r2
    assume "r1 < length (heap s1) \<and> r2 < length (heap s1)
            \<and> filePath (heap s1 ! r1) = filePath (heap s1 ! r2)"
    then show "r1 = r2" using unique_modules_distinct[OF u1] by blast
  }
  {
    fix env'
    have "map_of (MODULE_CACHE s1) p = Some g" using createModule_result[OF assms(2)] .
    then show "createModule env' s1 p = (Inr g, s1)"
      by (simp add: createModule.simps MODULE_CACHE_get_def)
  }
  {
    fix modules moduleMap s2
    assume a: "collectModules s1 g = Inr modules \<and> toModuleMap env s1 modules = (Inr moduleMap, s2)"
    then have c: "distinct modules" "set modules = reachable s1 g"
        "\<forall>r\<in>set modules. r < length (heap s1)"
      using collectModules_reachable[of s1 g modules] by auto
    from toModuleMap_text[OF _ c(1,3)] a
    have t: "moduleMap = ''{'' @ concat (map (\<lambda>r. moduleMap_entry (heap s2 ! r)) modules) @ ''}''"
      "\<forall>r<length (heap s1). filePath (heap s2 ! r) = filePath (heap s1 ! r)"
      by auto
    have e: "moduleMap_entry (heap s2 ! r)
            = ''\"'' @ filePath (heap s1 ! r) @ ''\": function(exports, require) { ''
                       @ content (heap s2 ! r) @ ''\<newline> },''" if "r \<in> set modules" for r
      using t(2) c(3) that unfolding moduleMap_entry_def by simp
    have m: "map (\<lambda>r. moduleMap_entry (heap s2 ! r)) modules
            = map (\<lambda>r. ''\"'' @ filePath (heap s1 ! r) @ ''\": function(exports, require) { ''
                       @ content (heap s2 ! r) @ ''\<newline> },'') modules"
      by (rule map_cong[OF refl]) (rule e)
    show "moduleMap =
               ''{'' @ concat (map (\<lambda>r. ''\"'' @ filePath (heap s1 ! r)
                                         @ ''\": function(exports, require) { ''
                                         @ content (heap s2 ! r) @ ''\<newline> },'') modules) @ ''}''"
      unfolding m[symmetric] using t(1) .
    show "map (\<lambda>r. filePath (heap s2 ! r)) modules = map (\<lambda>r. filePath (heap s1 ! r)) modules"
      using t(2) c(3) by simp
    have "inj_on (\<lambda>r. filePath (heap s1 ! r)) (set modules)"
      using unique_modules_distinct[OF u1] c(3) by (auto intro!: inj_onI)
    then show "distinct (map (\<lambda>r. filePath (heap s1 ! r)) modules)"
      using c(1) by (simp add: distinct_map)
    show "set (map (\<lambda>r. filePath (heap s1 ! r)) modules)
                 = (\<lambda>r. filePath (heap s1 ! r)) ` reachable s1 g"
      using c(2) by simp
  }
qed

text \<open>
  The two scripts that import each other: \<open>/p/a.js\<close> is imported by \<open>/p/b.js\<close> and is the
  entry, and the module map has one entry for each of the two paths.
\<close>

theorem one_module_per_path_witness:
  "unique_modules initial_state
   \<and> createModule cyc_env initial_state ''/p/a.js'' = (Inr 0, cyc_loaded)
   \<and> createModule cyc_env cyc_loaded ''/p/a.js'' = (Inr 0, cyc_loaded)
   \<and> collectModules cyc_loaded 0 = Inr [0, 1]
   \<and> toModuleMap cyc_env cyc_loaded [0, 1] = (Inr cyc_moduleMap, cyc_transformed)
   \<and> cyc_moduleMap
       = ''{\"/p/a.js\": function(exports, require) { \<newline> },''
         @ ''\"/p/b.js\": function(exports, require) { \<newline> },}''
   \<and> map (\<lambda>r. filePath (heap cyc_loaded ! r)) [0, 1] = [''/p/a.js'', ''/p/b.js'']
   \<and> (\<lambda>r. filePath (heap cyc_loaded ! r)) ` reachable cyc_loaded 0 = {''/p/a.js'', ''/p/b.js''}"
proof -
  have u: "unique_modules initial_state"
    by (simp add: unique_modules_def initial_state_def)
  have c: "collectModules cyc_loaded 0 = Inr [0, 1]"
    by (simp add: collectModules_def cyc_loaded_def heap_get_def)
  have t: "toModuleMap cyc_env cyc_loaded [0, 1] = (Inr cyc_moduleMap, cyc_transformed)"
    by (simp add: toModuleMap_def cyc_loaded_def cyc_transformed_def cyc_a'_def cyc_b'_def
          cyc_moduleMap_def heap_get_def heap_set_def transformModuleInterface_def cyc_env_def
          Let_def)
  have p: "map (\<lambda>r. filePath (heap cyc_loaded ! r)) [0, 1] = [''/p/a.js'', ''/p/b.js'']"
    by (simp add: cyc_loaded_def)
  from one_module_per_path[OF u cyc_run] c t
  have "createModule cyc_env cyc_loaded ''/p/a.js'' = (Inr 0, cyc_loaded)"
    and "set (map (\<lambda>r. filePath (heap cyc_loaded ! r)) [0, 1])
           = (\<lambda>r. filePath (heap cyc_loaded ! r)) ` reachable cyc_loaded 0"
    and m: "cyc_moduleMap =
               ''{'' @ concat (map (\<lambda>r. ''\"'' @ filePath (heap cyc_loaded ! r)
                                         @ ''\": function(exports, require) { ''
                                         @ content (heap cyc_transformed ! r) @ ''\<newline> },'')
                              [0, 1]) @ ''}''"
    by blast+
  moreover have "cyc_moduleMap
       = ''{\"/p/a.js\": function(exports, require) { \<newline> },''
         @ ''\"/p/b.js\": function(exports, require) { \<newline> },}''"
    unfolding m by (simp add: cyc_loaded_def cyc_transformed_def cyc_a'_def cyc_b'_def)
  ultimately show ?thesis using u cyc_run c t p by simp
qed


section \<open>The runtime registers a module before it runs its factory\<close>

lemma entered_append [simp]: "entered (xs @ ys) = entered xs @ entered ys"
  by (induction xs rule: entered.induct) auto

lemma grows_refl [simp]: "grows rt rt"
  by (simp add: grows_def)

lemma grows_trans: "grows a b \<Longrightarrow> grows b c \<Longrightarrow> grows a c"
  by (auto simp: grows_def intro: map_le_trans)

lemma grows_enter:
  assumes "map_of (moduleCache rt) n = None"
  shows "grows rt (log_event (rt\<lparr>objects := os, moduleCache := AList.update n r (moduleCache rt)\<rparr>)
                    (Enter n))"
proof -
  have "n \<notin> fst ` set (moduleCache rt)" using assms by (simp add: map_of_eq_None_iff)
  moreover have "map_of (moduleCache rt) \<subseteq>\<^sub>m map_of (AList.update n r (moduleCache rt))"
    using assms by (simp add: map_of_update_le)
  ultimately show ?thesis
    unfolding grows_def once_def log_event_def by (auto simp: update_keys)
qed

lemma grows_alloc:
  assumes "map_of (moduleCache rt) n = None"
  shows "grows rt (rt\<lparr>objects := os, moduleCache := AList.update n r (moduleCache rt)\<rparr>)"
proof -
  have "map_of (moduleCache rt) \<subseteq>\<^sub>m map_of (AList.update n r (moduleCache rt))"
    using assms by (simp add: map_of_update_le)
  then show ?thesis
    unfolding grows_def once_def by (auto simp: update_keys)
qed

lemma grows_returned: "grows rt (log_event rt (Returned n r props))"
  unfolding grows_def once_def log_event_def by simp

lemma grows_set_property: "grows rt (set_property rt r k v)"
  unfolding grows_def once_def set_property_def by simp

lemma require_grows:
  shows "grows rt (snd (require modules rt n))"
    and "grows rt (snd (run_factory modules rt ex body))"
proof (induct modules rt n and modules rt ex body rule: require_run_factory.induct)
  case (1 modules rt moduleName)
  show ?case
  proof (cases "moduleCache_get rt moduleName \<noteq> Undefined")
    case True
    then show ?thesis by simp
  next
    case False
    then have miss: "map_of (moduleCache rt) moduleName = None"
      by (simp add: moduleCache_get_Undefined)
    let ?rt1 = "rt\<lparr>objects := objects rt @ [[]],
                      moduleCache := AList.update moduleName (length (objects rt)) (moduleCache rt)\<rparr>"
    show ?thesis
    proof (cases "modules_get modules moduleName")
      case None
      then show ?thesis using False grows_alloc[OF miss] by (simp add: Let_def)
    next
      case (Some body)
      have "grows (log_event ?rt1 (Enter moduleName))
              (snd (run_factory modules (log_event ?rt1 (Enter moduleName)) (length (objects rt)) body))"
        using "1" False Some by simp
      with grows_enter[OF miss]
      have "grows rt (snd (run_factory modules (log_event ?rt1 (Enter moduleName))
                            (length (objects rt)) body))"
        by (rule grows_trans)
      then show ?thesis
        using False Some by (simp add: Let_def snd_propagate_rt)
    qed
  qed
next
  case (2 modules rt exports)
  then show ?case by simp
next
  case (3 modules rt exports name rest)
  obtain r rt' where c: "require modules rt name = (r, rt')" by (cases "require modules rt name")
  have ih1: "grows rt rt'" using "3"(1) c by simp
  show ?case
  proof (cases r)
    case (Inl e)
    then show ?thesis using c ih1 by simp
  next
    case (Inr x)
    have "grows rt (log_event rt' (Returned name x (properties rt' x)))"
      using ih1 grows_returned grows_trans by blast
    with "3"(2)[OF c[symmetric] Inr] show ?thesis
      using c Inr by (auto intro: grows_trans)
  qed
next
  case (4 modules rt exports key v rest)
  then show ?case using grows_set_property grows_trans by fastforce
qed

lemma run_factory_keeps_entry:
  assumes "map_of (moduleCache rt) n = Some r"
  shows "moduleCache_get (snd (run_factory modules rt ex body)) n = Object r"
proof -
  have "map_of (moduleCache rt) \<subseteq>\<^sub>m map_of (moduleCache (snd (run_factory modules rt ex body)))"
    using require_grows(2)[of rt modules ex body] by (simp add: grows_def)
  then have "map_of (moduleCache (snd (run_factory modules rt ex body))) n = Some r"
    using assms by (auto simp: map_le_def dom_def)
  then show ?thesis by (simp add: moduleCache_get_def)
qed

lemma loader_names_not_inherited:
  "MODULE_LOADERS (path_extname n) \<noteq> None \<Longrightarrow> n \<notin> set Object_prototype"
  by (auto simp: Object_prototype_def MODULE_LOADERS_def path_extname_def)

lemma cyc_start: "webpackStart cyc_modules ''/a.js'' = (Inr (Object 0), cyc_ran)"
  by (simp add: webpackStart_def cyc_modules_def cyc_ran_def Let_def log_event_def
        set_property_def object_at_def moduleCache_get_def modules_get_def properties_def
        Object_prototype_def)

text \<open>
  Claim C3. In the emitted runtime every call of \<open>require\<close> terminates (it lies in the
  domain on which the recursion of \<open>require\<close> and the runs of the factories is
  well-founded). A call for a name that is registered returns the registered exports
  object as it is at that moment and changes nothing; in particular it does not enter a
  factory. A call for a name that is not registered but is a property of
  \<open>Object.prototype\<close> returns that property and changes nothing either. A call for any
  other name that has a factory registers a fresh empty exports object first and runs the
  factory in that state, and when the factory returns, the call returns that same exports
  object. And if no factory has been entered twice before the call, none has been entered
  twice after it: from the empty cache of a run, each factory runs at most once. The names
  of a bundle are paths of modules that \<open>createModule\<close> has made, whose extension has a
  loader; no such path is a property of \<open>Object.prototype\<close>.
\<close>

theorem require_caches_before_running:
  "require_run_factory_dom (Inl (modules, rt, moduleName))
   \<and> (\<forall>r. map_of (moduleCache rt) moduleName = Some r \<longrightarrow>
         require modules rt moduleName = (Inr (Object r), rt))
   \<and> (map_of (moduleCache rt) moduleName = None \<and> moduleName \<in> set Object_prototype \<longrightarrow>
         require modules rt moduleName = (Inr (Inherited moduleName), rt))
   \<and> (\<forall>body. map_of (moduleCache rt) moduleName = None \<and> moduleName \<notin> set Object_prototype
              \<and> modules_get modules moduleName = Some body \<longrightarrow>
        (let exports = length (objects rt);
             rt1 = log_event
                     (rt\<lparr>objects := objects rt @ [[]],
                         moduleCache := AList.update moduleName exports (moduleCache rt)\<rparr>)
                     (Enter moduleName)
         in map_of (moduleCache rt1) moduleName = Some exports
            \<and> object_at rt1 exports = []
            \<and> require modules rt moduleName =
                (case run_factory modules rt1 exports body of
                   (Inl e, rt2) \<Rightarrow> (Inl e, rt2)
                 | (Inr u, rt2) \<Rightarrow> (Inr (Object exports), rt2))))
   \<and> (once rt \<longrightarrow> once (snd (require modules rt moduleName)))
   \<and> (MODULE_LOADERS (path_extname moduleName) \<noteq> None \<longrightarrow> moduleName \<notin> set Object_prototype)"
proof (intro conjI allI impI)
  show "require_run_factory_dom (Inl (modules, rt, moduleName))"
    using require_total by blast
next
  fix r assume "map_of (moduleCache rt) moduleName = Some r"
  then show "require modules rt moduleName = (Inr (Object r), rt)"
    by (simp add: moduleCache_get_def)
next
  assume "map_of (moduleCache rt) moduleName = None \<and> moduleName \<in> set Object_prototype"
  then show "require modules rt moduleName = (Inr (Inherited moduleName), rt)"
    by (simp add: moduleCache_get_def)
next
  fix body
  assume a: "map_of (moduleCache rt) moduleName = None \<and> moduleName \<notin> set Object_prototype
              \<and> modules_get modules moduleName = Some body"
  define exports where "exports = length (objects rt)"
  define rt1 where "rt1 = log_event
                     (rt\<lparr>objects := objects rt @ [[]],
                         moduleCache := AList.update moduleName exports (moduleCache rt)\<rparr>)
                     (Enter moduleName)"
  have u: "moduleCache_get rt moduleName = Undefined"
    using a by (simp add: moduleCache_get_Undefined)
  have reg: "map_of (moduleCache rt1) moduleName = Some exports"
    unfolding rt1_def by (simp add: update_conv')
  have fresh: "object_at rt1 exports = []"
    unfolding rt1_def exports_def by (simp add: object_at_def log_event_def)
  have keep: "moduleCache_get (snd (run_factory modules rt1 exports body)) moduleName = Object exports"
    using run_factory_keeps_entry[OF reg] .
  have "require modules rt moduleName =
                (case run_factory modules rt1 exports body of
                   (Inl e, rt2) \<Rightarrow> (Inl e, rt2)
                 | (Inr u, rt2) \<Rightarrow> (Inr (Object exports), rt2))"
    using u a keep unfolding rt1_def exports_def
    by (auto simp: Let_def split: prod.splits sum.splits)
  then show "let exports = length (objects rt);
             rt1 = log_event
                     (rt\<lparr>objects := objects rt @ [[]],
                         moduleCache := AList.update moduleName exports (moduleCache rt)\<rparr>)
                     (Enter moduleName)
         in map_of (moduleCache rt1) moduleName = Some exports
            \<and> object_at rt1 exports = []
            \<and> require modules rt moduleName =
                (case run_factory modules rt1 exports body of
                   (Inl e, rt2) \<Rightarrow> (Inl e, rt2)
                 | (Inr u, rt2) \<Rightarrow> (Inr (Object exports), rt2))"
    using reg fresh unfolding rt1_def exports_def by (simp add: Let_def)
next
  assume "once rt"
  then show "once (snd (require modules rt moduleName))"
    using require_grows(1)[of rt modules moduleName] by (simp add: grows_def)
next
  assume "MODULE_LOADERS (path_extname moduleName) \<noteq> None"
  then show "moduleName \<notin> set Object_prototype" by (rule loader_names_not_inherited)
qed

text \<open>
  The two factories that require each other, started at \<open>/a.js\<close>: each factory is entered
  once; the call \<open>require('/a.js')\<close> made by \<open>/b.js\<close> returns object \<open>0\<close> when it holds
  \<open>x\<close> only, \<open>y\<close> being assigned after \<open>/b.js\<close> has returned; and a further call for
  \<open>/a.js\<close> answers from the cache. A call for \<open>toString\<close> answers with the inherited
  function and leaves the runtime as it is.
\<close>

theorem require_caches_before_running_witness:
  "webpackStart cyc_modules ''/a.js'' = (Inr (Object 0), cyc_ran)
   \<and> once \<lparr>moduleCache = [], objects = [], trace = []\<rparr>
   \<and> once cyc_ran
   \<and> entered (trace cyc_ran) = [''/a.js'', ''/b.js'']
   \<and> trace cyc_ran ! 2 = Returned ''/a.js'' (Object 0) [(''x'', ''1'')]
   \<and> map_of (moduleCache cyc_ran) ''/a.js'' = Some 0
   \<and> require cyc_modules cyc_ran ''/a.js'' = (Inr (Object 0), cyc_ran)
   \<and> require cyc_modules cyc_ran ''toString'' = (Inr (Inherited ''toString''), cyc_ran)
   \<and> MODULE_LOADERS (path_extname ''/a.js'') = Some JSModule
   \<and> ''/a.js'' \<notin> set Object_prototype"
proof -
  have o: "once \<lparr>moduleCache = [], objects = [], trace = []\<rparr>"
    by (simp add: once_def)
  have h: "map_of (moduleCache cyc_ran) ''/a.js'' = Some 0"
    by (simp add: cyc_ran_def)
  have i: "map_of (moduleCache cyc_ran) ''toString'' = None \<and> ''toString'' \<in> set Object_prototype"
    by (simp add: cyc_ran_def Object_prototype_def)
  from require_caches_before_running[of cyc_modules "\<lparr>moduleCache = [], objects = [], trace = []\<rparr>"
         "''/a.js''"] o cyc_start
  have "once cyc_ran" by (simp add: webpackStart_def)
  moreover from require_caches_before_running[of cyc_modules cyc_ran "''/a.js''"] h
  have "require cyc_modules cyc_ran ''/a.js'' = (Inr (Object 0), cyc_ran)" by blast
  moreover from require_caches_before_running[of cyc_modules cyc_ran "''toString''"] i
  have "require cyc_modules cyc_ran ''toString'' = (Inr (Inherited ''toString''), cyc_ran)"
    by blast
  moreover have ext: "MODULE_LOADERS (path_extname ''/a.js'') = Some JSModule"
    by (simp add: MODULE_LOADERS_def path_extname_def)
  moreover from require_caches_before_running[of cyc_modules cyc_ran "''/a.js''"] ext
  have "''/a.js'' \<notin> set Object_prototype" by simp
  moreover have "entered (trace cyc_ran) = [''/a.js'', ''/b.js'']"
    by (simp add: cyc_ran_def)
  moreover have "trace cyc_ran ! 2 = Returned ''/a.js'' (Object 0) [(''x'', ''1'')]"
    by (simp add: cyc_ran_def)
  ultimately show ?thesis using o h cyc_start by blast
qed


section \<open>A use site that the module-interface transform does not rewrite\<close>

text \<open>
  Claim C4 says that after the module-interface transform every import declaration has
  become a call of \<open>require\<close> on the resolved path, and every use site of an imported
  binding a property access on the object that call returns. The plugin rewrites the use
  sites through the reference paths that the scope analysis recorded before the plugin
  ran. In \<open>/p/late.js\<close> the default export \<open>export default helper\<close> stands before
  \<open>import helper from './helper.js'\<close>: the visitor of the export runs first and puts the
  identifier into \<open>exports.default = helper\<close>, the path of the reference stays with the
  export declaration that is gone, and the visitor of the import replaces nothing in the
  program. The transform completes; its result requires the resolved path
  \<open>/p/helper.js\<close>, and the use site \<open>helper\<close> stands in it as it was. In \<open>/p/early.js\<close>, the
  same two statements with the import first, the use site becomes
  \<open>_imported["default"]\<close>.
\<close>

theorem moved_use_site_not_rewritten:
  "createModule late_env initial_state ''/p/late.js'' = (Inr 0, late_loaded)
   \<and> transformModuleInterface late_env (heap late_loaded ! 0)
       = Inr ((heap late_loaded ! 0)\<lparr>content := [], ast := Some
          [ExpressionStatement
             (AssignmentExpression ''=''
                (MemberExpression (Identifier ''exports'' NoReference)
                   (Identifier ''default'' NoReference) False)
                (Identifier ''helper'' Moved)),
           VariableDeclaration ''const''
             [VariableDeclarator (Identifier ''_imported'' NoReference)
                (Some (CallExpression (Identifier ''require'' NoReference)
                         [StringLiteral ''/p/helper.js'']))]]\<rparr>)
   \<and> createModule late_env initial_state ''/p/early.js'' = (Inr 0, early_loaded)
   \<and> transformModuleInterface late_env (heap early_loaded ! 0)
       = Inr ((heap early_loaded ! 0)\<lparr>content := [], ast := Some
          [VariableDeclaration ''const''
             [VariableDeclarator (Identifier ''_imported'' NoReference)
                (Some (CallExpression (Identifier ''require'' NoReference)
                         [StringLiteral ''/p/helper.js'']))],
           ExpressionStatement
             (AssignmentExpression ''=''
                (MemberExpression (Identifier ''exports'' NoReference)
                   (Identifier ''default'' NoReference) False)
                (MemberExpression (Identifier ''_imported'' NoReference)
                   (StringLiteral ''default'') True))]\<rparr>)"
proof -
  have l: "createModule late_env initial_state ''/p/late.js'' = (Inr 0, late_loaded)"
    by (simp add: late_env_def initial_state_def late_loaded_def helper_module_def demo_eval
          createModule.simps initDependencies.simps)
  have e: "createModule late_env initial_state ''/p/early.js'' = (Inr 0, early_loaded)"
    by (simp add: late_env_def initial_state_def early_loaded_def helper_module_def demo_eval
          createModule.simps initDependencies.simps)
  have tl: "transformModuleInterface late_env (heap late_loaded ! 0)
       = Inr ((heap late_loaded ! 0)\<lparr>content := [], ast := Some
          [ExpressionStatement
             (AssignmentExpression ''=''
                (MemberExpression (Identifier ''exports'' NoReference)
                   (Identifier ''default'' NoReference) False)
                (Identifier ''helper'' Moved)),
           VariableDeclaration ''const''
             [VariableDeclarator (Identifier ''_imported'' NoReference)
                (Some (CallExpression (Identifier ''require'' NoReference)
                         [StringLiteral ''/p/helper.js'']))]]\<rparr>)"
    by (simp add: transformModuleInterface_def late_loaded_def late_env_def Let_def
          exports_assignment_def require_declaration_def is_reference_def)
  have te: "transformModuleInterface late_env (heap early_loaded ! 0)
       = Inr ((heap early_loaded ! 0)\<lparr>content := [], ast := Some
          [VariableDeclaration ''const''
             [VariableDeclarator (Identifier ''_imported'' NoReference)
                (Some (CallExpression (Identifier ''require'' NoReference)
                         [StringLiteral ''/p/helper.js'']))],
           ExpressionStatement
             (AssignmentExpression ''=''
                (MemberExpression (Identifier ''exports'' NoReference)
                   (Identifier ''default'' NoReference) False)
                (MemberExpression (Identifier ''_imported'' NoReference)
                   (StringLiteral ''default'') True))]\<rparr>)"
    by (simp add: transformModuleInterface_def early_loaded_def late_env_def Let_def
          exports_assignment_def require_declaration_def is_reference_def)
  show ?thesis using l e tl te by blast
qed


section \<open>Resolution of relative and bare requests\<close>

lemma split_abs_aux:
  "\<forall>seg\<in>set segs. CHR ''/'' \<notin> set seg \<Longrightarrow> CHR ''/'' \<notin> set acc \<Longrightarrow>
     split_acc CHR ''/'' acc (abs_path segs) = (if segs = [] then [acc] else acc # segs)"
proof (induction segs arbitrary: acc)
  case Nil
  then show ?case by (simp add: abs_path_def)
next
  case (Cons a segs)
  show ?case
  proof (cases segs)
    case Nil
    then show ?thesis using Cons.prems by (simp add: abs_path_def split_acc_last)
  next
    case (Cons b bs)
    have "split_acc CHR ''/'' [] (a @ abs_path segs) = a # segs"
      using Cons.prems Cons.IH[of a] Cons
      by (simp add: abs_path_def split_acc_append)
    then show ?thesis by (simp add: abs_path_def)
  qed
qed

lemma str_split_abs_path:
  "segs \<noteq> [] \<Longrightarrow> \<forall>seg\<in>set segs. CHR ''/'' \<notin> set seg \<Longrightarrow>
     str_split CHR ''/'' (abs_path segs) = [] # segs"
  using split_abs_aux[of segs "[]"] by (simp add: str_split_def)

lemma str_join_snoc: "ys \<noteq> [] \<Longrightarrow> str_join sep (ys @ [y]) = str_join sep ys @ sep @ y"
  by (induction sep ys rule: str_join.induct) auto

lemma str_join_abs: "str_join ''/'' ([] # segs) = abs_path segs"
proof (induction segs rule: rev_induct)
  case Nil
  then show ?case by (simp add: abs_path_def)
next
  case (snoc x xs)
  then show ?case using str_join_snoc[of "[] # xs" "''/''" x] by (simp add: abs_path_def)
qed

lemma requestPaths_loop_map:
  "n \<le> length segs \<Longrightarrow>
   requestPaths_loop ([] # segs) n =
     map (\<lambda>k. abs_path (take k segs) @ ''/node_modules'') (rev [0..<n])"
proof (induction n)
  case 0
  then show ?case by simp
next
  case (Suc n)
  then show ?case using str_join_abs[of "take n segs"] by simp
qed

text \<open>
  Claim C5. A request that begins with a dot resolves to the request joined to the
  directory of the requester, normalised (\<open>path.join\<close> normalises). For any other request
  the answer is the host's package lookup over the candidate list built from the
  requester; and for a requester that is an absolute path with segments \<open>segs\<close>, the
  candidates are \<open>node_modules\<close> under each ancestor directory, from the immediate parent
  (\<open>take (length segs - 1) segs\<close>) up to the root (\<open>take 0 segs\<close>), the closest first.
\<close>

theorem resolveRequest_relative_and_bare:
  "(take 1 requestPath = ''.'' \<longrightarrow>
      resolveRequest env requester requestPath
        = Inr (path_join [path_dirname requester, requestPath]))
   \<and> (take 1 requestPath \<noteq> ''.'' \<longrightarrow>
      resolveRequest env requester requestPath
        = (case require_resolve env requestPath (requestPaths requester) of
             None \<Rightarrow> Inl (MODULE_NOT_FOUND requestPath)
           | Some resolved \<Rightarrow> Inr resolved))
   \<and> (segs \<noteq> [] \<and> (\<forall>seg\<in>set segs. CHR ''/'' \<notin> set seg) \<longrightarrow>
      requestPaths (abs_path segs)
        = map (\<lambda>k. abs_path (take k segs) @ ''/node_modules'') (rev [0..<length segs]))"
  by (simp add: resolveRequest_def requestPaths_def str_split_abs_path requestPaths_loop_map)

text \<open>
  From \<open>/proj/src/a.js\<close>: \<open>./b.js\<close> is \<open>/proj/src/b.js\<close>; the candidates of a bare request
  are the three \<open>node_modules\<close> directories, innermost first; and with \<open>lib\<close> installed under
  \<open>/proj/node_modules\<close> and under \<open>/node_modules\<close>, the closer one is the answer.
\<close>

theorem resolveRequest_relative_and_bare_witness:
  "resolveRequest pkg_env ''/proj/src/a.js'' ''./b.js'' = Inr ''/proj/src/b.js''
   \<and> requestPaths ''/proj/src/a.js''
       = [''/proj/src/node_modules'', ''/proj/node_modules'', ''/node_modules'']
   \<and> resolveRequest pkg_env ''/proj/src/a.js'' ''lib'' = Inr ''/proj/node_modules/lib''"
proof -
  have p: "abs_path [''proj'', ''src'', ''a.js''] = ''/proj/src/a.js''"
    by (simp add: abs_path_def)
  have ups: "rev [0..<3] = [2, 1, 0::nat]"
    by (simp add: upt_rec)
  have rel: "resolveRequest pkg_env ''/proj/src/a.js'' ''./b.js'' = Inr ''/proj/src/b.js''"
    using resolveRequest_relative_and_bare[of "''./b.js''" pkg_env "''/proj/src/a.js''" "[]"]
    by (simp add: path_join_def path_dirname_def path_normalize_def str_split_def)
  have cands: "requestPaths ''/proj/src/a.js''
       = [''/proj/src/node_modules'', ''/proj/node_modules'', ''/node_modules'']"
    using resolveRequest_relative_and_bare[of "''lib''" pkg_env "''/proj/src/a.js''"
            "[''proj'', ''src'', ''a.js'']"] p ups
    by (simp add: abs_path_def)
  have "resolveRequest pkg_env ''/proj/src/a.js'' ''lib'' = Inr ''/proj/node_modules/lib''"
    using resolveRequest_relative_and_bare[of "''lib''" pkg_env "''/proj/src/a.js''" "[]"] cands
    by (simp add: pkg_env_def first_match_def)
  with rel cands show ?thesis by simp
qed


section \<open>The lifetime of the module cache\<close>

text \<open>
  Claim C6 says that the cache is created for each build and discarded at its end, so
  that a second build of the same entry sees no module of the first. In the example,
  the state after the first build has the three modules registered. In that state a
  second build of the same entry takes as its graph the module object of the first build,
  and succeeds, although every source file has been deleted in between; from the state
  of a fresh process the same build fails on the missing entry file.
\<close>

theorem cache_carries_over_counterexample:
  "build demo_env initial_state ''/p/index.js'' ''/out'' (Some ''/p/index.html'')
     = (Inr (), demo_built)
   \<and> MODULE_CACHE demo_built = [(''/p/index.js'', 0), (''/p/sq.js'', 1), (''/p/style.css'', 2)]
   \<and> createDependencyGraph emptied_env demo_built ''/p/index.js'' = (Inr 0, demo_built)
   \<and> fst (build emptied_env demo_built ''/p/index.js'' ''/out'' (Some ''/p/index.html'')) = Inr ()
   \<and> build emptied_env initial_state ''/p/index.js'' ''/out'' (Some ''/p/index.html'')
       = (Inl (ENOENT ''/p/index.js''), initial_state)"
proof -
  have "MODULE_CACHE demo_built = [(''/p/index.js'', 0), (''/p/sq.js'', 1), (''/p/style.css'', 2)]"
    by (simp add: demo_built_def demo_transformed_def demo_cache_def)
  with demo_build demo_rebuild_graph demo_rebuild demo_fresh_fails show ?thesis
    by blast
qed

text \<open>
  Claim C6, amended. The module cache belongs to the process: the script creates it once
  and \<open>build\<close> neither creates nor clears it. Every entry that is in the cache before a
  build is in it, unchanged, after the build, whether the build succeeds or throws; and
  after a build that succeeds the entry file is registered, so that a later build of the
  same entry in the same process, whatever the files are by then, takes the registered
  module as its graph without reading any file. (The script itself calls \<open>build\<close> once.)
\<close>

theorem module_cache_outlives_build:
  assumes "build env s entryFile outputFolder htmlTemplatePath = (r, s')"
  shows "map_of (MODULE_CACHE s) \<subseteq>\<^sub>m map_of (MODULE_CACHE s')
     \<and> (r = Inr () \<longrightarrow>
          (\<exists>graph. map_of (MODULE_CACHE s') entryFile = Some graph
             \<and> (\<forall>env'. createDependencyGraph env' s' entryFile = (Inr graph, s'))))"
proof -
  have "\<exists>graph. map_of (MODULE_CACHE s') entryFile = Some graph" if ok: "r = Inr ()"
  proof -
    obtain r1 s1 where c: "createModule env s entryFile = (r1, s1)"
      by (cases "createModule env s entryFile")
    from assms ok c obtain g where g: "r1 = Inr g"
      by (cases r1) (auto simp: build_def createDependencyGraph_def)
    have k1: "map_of (MODULE_CACHE s1) entryFile = Some g"
      using createModule_result c g by simp
    obtain r2 s2 where b: "bundle_graph env s1 g = (r2, s2)" by (cases "bundle_graph env s1 g")
    have k2: "MODULE_CACHE s2 = MODULE_CACHE s1" using bundle_graph_frame[OF b] by simp
    from assms ok c g b
    have "MODULE_CACHE s' = MODULE_CACHE s2"
      by (auto simp: build_def createDependencyGraph_def split: sum.splits
               dest: write_all_cache_kept)
    then show ?thesis using k1 k2 by simp
  qed
  moreover have "createDependencyGraph env' s' entryFile = (Inr graph, s')"
    if "map_of (MODULE_CACHE s') entryFile = Some graph" for env' graph
    using that by (simp add: createDependencyGraph_def MODULE_CACHE_get_def createModule.simps)
  ultimately show ?thesis using build_cache_kept[OF assms] by blast
qed

theorem module_cache_outlives_build_witness:
  "build demo_env initial_state ''/p/index.js'' ''/out'' (Some ''/p/index.html'')
     = (Inr (), demo_built)
   \<and> map_of (MODULE_CACHE demo_built) ''/p/index.js'' = Some 0
   \<and> createDependencyGraph emptied_env demo_built ''/p/index.js'' = (Inr 0, demo_built)"
proof -
  have hit: "map_of (MODULE_CACHE demo_built) ''/p/index.js'' = Some 0"
    by (simp add: demo_built_def demo_transformed_def demo_cache_def)
  from module_cache_outlives_build[OF demo_build] hit
  have "createDependencyGraph emptied_env demo_built ''/p/index.js'' = (Inr 0, demo_built)"
    by auto
  with demo_build hit show ?thesis by blast
qed


section \<open>An extension without a loader\<close>

text \<open>
  Claim C7 says that the message of the error names the offending path and the
  extension. The message the code builds holds the extension only: for \<open>/p/logo.svg\<close> it
  is \<open>Unsupported extension ".svg".\<close>, in which the path does not occur.
\<close>

theorem unsupported_message_counterexample:
  "createModule demo_env initial_state ''/p/logo.svg''
     = (Inl (Error ''Unsupported extension \".svg\".''), initial_state)
   \<and> \<not> str_includes ''Unsupported extension \".svg\".'' ''/p/logo.svg''"
  by (simp add: createModule.simps initial_state_def MODULE_LOADERS_def path_extname_def)

text \<open>
  Claim C7, amended. For every path whose extension has no registered loader (and that
  is not registered already), loading throws the error \<open>Unsupported extension "<ext>".\<close>,
  whose message names the extension; a build with that entry throws the same error and
  leaves the state as it was; and whenever the load of the graph of a build throws, at
  whatever depth of the import graph, the build throws that error and has written no file.
\<close>

theorem unsupported_extension_aborts_build:
  assumes "MODULE_LOADERS (path_extname p) = None"
    and "map_of (MODULE_CACHE s) p = None"
  shows "createModule env s p
           = (Inl (Error (''Unsupported extension \"'' @ path_extname p @ ''\".'')), s)
     \<and> str_includes (''Unsupported extension \"'' @ path_extname p @ ''\".'') (path_extname p)
     \<and> build env s p outputFolder htmlTemplatePath
           = (Inl (Error (''Unsupported extension \"'' @ path_extname p @ ''\".'')), s)
     \<and> (\<forall>entryFile e s'. createDependencyGraph env s entryFile = (Inl e, s')
            \<longrightarrow> build env s entryFile outputFolder htmlTemplatePath = (Inl e, s')
                \<and> written s' = written s)"
proof -
  have c: "createModule env s p
             = (Inl (Error (''Unsupported extension \"'' @ path_extname p @ ''\".'')), s)"
    using assms by (simp add: createModule.simps)
  have "build env s p outputFolder htmlTemplatePath
          = (Inl (Error (''Unsupported extension \"'' @ path_extname p @ ''\".'')), s)"
    unfolding build_def createDependencyGraph_def c by simp
  then show ?thesis
    using c str_includes_append build_graph_failure by blast
qed

text \<open>
  The project with \<open>/p/logo.svg\<close> as the entry: the build throws, nothing is loaded and
  nothing is written. And a script that imports \<open>./logo.svg\<close>: the load of the script
  throws the error of the import, and so does the build, without a write.
\<close>

theorem unsupported_extension_aborts_build_witness:
  "MODULE_LOADERS (path_extname ''/p/logo.svg'') = None
   \<and> map_of (MODULE_CACHE initial_state) ''/p/logo.svg'' = None
   \<and> build demo_env initial_state ''/p/logo.svg'' ''/out'' (Some ''/p/index.html'')
       = (Inl (Error ''Unsupported extension \".svg\".''), initial_state)
   \<and> createDependencyGraph svg_env initial_state ''/p/icon.js''
       = (Inl (Error ''Unsupported extension \".svg\".''), svg_failed)
   \<and> build svg_env initial_state ''/p/icon.js'' ''/out'' (Some ''/p/index.html'')
       = (Inl (Error ''Unsupported extension \".svg\".''), svg_failed)
   \<and> written svg_failed = []"
proof -
  have e: "path_extname ''/p/logo.svg'' = ''.svg''"
    by (simp add: path_extname_def)
  have l: "MODULE_LOADERS ''.svg'' = None"
    by (simp add: MODULE_LOADERS_def)
  have m: "map_of (MODULE_CACHE initial_state) ''/p/logo.svg'' = None"
    by (simp add: initial_state_def)
  have g: "createDependencyGraph svg_env initial_state ''/p/icon.js''
       = (Inl (Error ''Unsupported extension \".svg\".''), svg_failed)"
    by (simp add: createDependencyGraph_def svg_env_def svg_failed_def initial_state_def
          demo_eval createModule.simps initDependencies.simps)
  from unsupported_extension_aborts_build[of "''/p/logo.svg''" initial_state demo_env "''/out''"
         "Some ''/p/index.html''"] l m
  have a: "build demo_env initial_state ''/p/logo.svg'' ''/out'' (Some ''/p/index.html'')
       = (Inl (Error ''Unsupported extension \".svg\".''), initial_state)"
    unfolding e by simp
  from unsupported_extension_aborts_build[of "''/p/logo.svg''" initial_state svg_env "''/out''"
         "Some ''/p/index.html''"] l m g
  have b: "build svg_env initial_state ''/p/icon.js'' ''/out'' (Some ''/p/index.html'')
       = (Inl (Error ''Unsupported extension \".svg\".''), svg_failed)"
    and w: "written svg_failed = written initial_state"
    unfolding e by blast+
  show ?thesis using a b w g l m unfolding e by (simp add: initial_state_def)
qed


section \<open>Stylesheet modules\<close>





section \<open>The artifacts of a build\<close>

lemma expand_replacement_plain:
  "CHR ''$'' \<notin> set rep \<Longrightarrow> expand_replacement matched pre post rep = rep"
  by (induction matched pre post rep rule: expand_replacement.induct) auto

lemma replace_from_first:
  "\<forall>i<length pre. \<not> starts_with (drop i (pre @ pat @ post)) pat \<Longrightarrow>
     replace_from pat rep b (pre @ pat @ post)
       = b @ pre @ expand_replacement pat (b @ pre) post rep @ post"
proof (induction pre arbitrary: b)
  case Nil
  show ?case
  proof (cases "pat @ post")
    case Nil
    then show ?thesis by simp
  next
    case (Cons c cs)
    then have "replace_from pat rep b (c # cs)
                 = b @ expand_replacement pat b (drop (length pat) (c # cs)) rep
                     @ drop (length pat) (c # cs)"
      using starts_with_append[of pat post] by simp
    then show ?thesis using Cons[symmetric] by simp
  qed
next
  case (Cons x pre)
  have n0: "\<not> starts_with (x # pre @ pat @ post) pat"
    using Cons.prems by force
  have "\<forall>i<length pre. \<not> starts_with (drop i (pre @ pat @ post)) pat"
  proof (intro allI impI)
    fix i assume "i < length pre"
    then have "Suc i < length (x # pre)" by simp
    from Cons.prems[rule_format, OF this] show "\<not> starts_with (drop i (pre @ pat @ post)) pat"
      by simp
  qed
  from Cons.IH[OF this, of "b @ [x]"] n0 show ?case by simp
qed

lemma replace_from_absent:
  "\<not> str_includes s pat \<Longrightarrow> replace_from pat rep b s = b @ s"
  by (induction s arbitrary: b) auto

text \<open>
  Claim C9 says that the bundle script is always emitted and the HTML artifact only if a
  template path is supplied. Without a template path the build of the example project
  throws after bundling and writes nothing, the bundle script included.
\<close>

theorem build_without_template_counterexample:
  "fst (build demo_env initial_state ''/p/index.js'' ''/out'' None)
     = Inl (TypeError ''The path argument must be of type string. Received undefined'')
   \<and> written (snd (build demo_env initial_state ''/p/index.js'' ''/out'' None)) = []"
  unfolding build_def createDependencyGraph_def demo_load prod.case sum.case demo_bundle
  by (simp add: generateHTMLTemplate_def demo_transformed_def)

text \<open>
  Claim C9, amended. The template path is required: without it every build throws and
  writes nothing. A build with a template path that succeeds has read the template and
  has written two files and no other, in this order: \<open>bundle.js\<close> and \<open>index.html\<close>, both
  in the output folder, and the content of \<open>index.html\<close> is the template in which the
  first \<open></body>\<close> is replaced by the script tag of \<open>bundle.js\<close> and \<open></body>\<close>. So the tag
  stands immediately before the first closing body marker, and a template without the
  marker is written unchanged.
\<close>

theorem build_artifacts:
  "(\<exists>e s'. build env s entryFile outputFolder None = (Inl e, s') \<and> written s' = written s)
   \<and> (\<forall>t s'. build env s entryFile outputFolder (Some t) = (Inr (), s') \<longrightarrow>
        (\<exists>moduleCode htmlTemplate.
           map_of (files env) t = Some htmlTemplate
           \<and> written s' = written s @
               [(path_join [outputFolder, ''bundle.js''], moduleCode),
                (path_join [outputFolder, ''index.html''],
                 str_replace htmlTemplate ''</body>''
                   ''<script src=\"/bundle.js\"></script></body>'')]))
   \<and> (\<forall>pre post.
        (\<forall>i<length pre. \<not> starts_with (drop i (pre @ ''</body>'' @ post)) ''</body>'') \<longrightarrow>
        str_replace (pre @ ''</body>'' @ post) ''</body>''
            ''<script src=\"/bundle.js\"></script></body>''
          = pre @ ''<script src=\"/bundle.js\"></script>'' @ ''</body>'' @ post)
   \<and> (\<forall>htmlTemplate. \<not> str_includes htmlTemplate ''</body>'' \<longrightarrow>
        str_replace htmlTemplate ''</body>'' ''<script src=\"/bundle.js\"></script></body>''
          = htmlTemplate)"
proof (intro conjI allI impI)
  show "\<exists>e s'. build env s entryFile outputFolder None = (Inl e, s') \<and> written s' = written s"
    by (rule build_without_template)
next
  fix t s'
  assume ok: "build env s entryFile outputFolder (Some t) = (Inr (), s')"
  obtain r1 s1 where c: "createModule env s entryFile = (r1, s1)"
    by (cases "createModule env s entryFile")
  have w1: "written s1 = written s" using createModule_written[of env s entryFile] c by simp
  from ok c obtain g where g: "r1 = Inr g"
    by (cases r1) (auto simp: build_def createDependencyGraph_def)
  obtain r2 s2 where b: "bundle_graph env s1 g = (r2, s2)" by (cases "bundle_graph env s1 g")
  have w2: "written s2 = written s" using bundle_graph_frame[OF b] w1 by simp
  from ok c g b obtain outputFiles where o: "r2 = Inr outputFiles"
    by (cases r2) (auto simp: build_def createDependencyGraph_def)
  from b o obtain moduleCode where f: "outputFiles = [(''bundle.js'', moduleCode)]"
    by (auto simp: bundle_graph_def split: sum.splits prod.splits option.splits)
  from ok c g b o obtain html where
    h: "generateHTMLTemplate env (Some t) outputFiles = Inr html"
    and s': "write_all env s2 outputFolder (outputFiles @ [html]) = (Inr (), s')"
    by (auto simp: build_def createDependencyGraph_def split: sum.splits)
  from h f obtain htmlTemplate where
    r: "map_of (files env) t = Some htmlTemplate"
    and hc: "html = (''index.html'',
               str_replace htmlTemplate ''</body>'' ''<script src=\"/bundle.js\"></script></body>'')"
    by (auto simp: generateHTMLTemplate_def readFileSync_def script_tag_def
             split: option.splits sum.splits)
  have "written s' = written s @
               [(path_join [outputFolder, ''bundle.js''], moduleCode),
                (path_join [outputFolder, ''index.html''],
                 str_replace htmlTemplate ''</body>''
                   ''<script src=\"/bundle.js\"></script></body>'')]"
    using write_all_written[OF s'] unfolding w2 f hc by simp
  with r show "\<exists>moduleCode htmlTemplate.
           map_of (files env) t = Some htmlTemplate
           \<and> written s' = written s @
               [(path_join [outputFolder, ''bundle.js''], moduleCode),
                (path_join [outputFolder, ''index.html''],
                 str_replace htmlTemplate ''</body>''
                   ''<script src=\"/bundle.js\"></script></body>'')]"
    by blast
next
  fix pre post :: string
  assume "\<forall>i<length pre. \<not> starts_with (drop i (pre @ ''</body>'' @ post)) ''</body>''"
  from replace_from_first[OF this, of "''<script src=\"/bundle.js\"></script></body>''" "[]"]
  show "str_replace (pre @ ''</body>'' @ post) ''</body>''
            ''<script src=\"/bundle.js\"></script></body>''
          = pre @ ''<script src=\"/bundle.js\"></script>'' @ ''</body>'' @ post"
    by (simp add: str_replace_def expand_replacement_plain)
next
  fix htmlTemplate
  assume "\<not> str_includes htmlTemplate ''</body>''"
  then show "str_replace htmlTemplate ''</body>'' ''<script src=\"/bundle.js\"></script></body>''
          = htmlTemplate"
    by (simp add: str_replace_def replace_from_absent)
qed

text \<open>
  The build of the example project with its template: the two files, and the tag placed
  before the closing body marker of the template.
\<close>

theorem build_artifacts_witness:
  "build demo_env initial_state ''/p/index.js'' ''/out'' (Some ''/p/index.html'')
     = (Inr (), demo_built)
   \<and> map_of (files demo_env) ''/p/index.html''
       = Some ''<html><body><div id=root></div></body></html>''
   \<and> (\<exists>moduleCode. written demo_built =
         [(''/out/bundle.js'', moduleCode),
          (''/out/index.html'',
           ''<html><body><div id=root></div><script src=\"/bundle.js\"></script></body></html>'')])
   \<and> str_replace (''<html><body><div id=root></div>'' @ ''</body>'' @ ''</html>'') ''</body>''
         ''<script src=\"/bundle.js\"></script></body>''
       = ''<html><body><div id=root></div>'' @ ''<script src=\"/bundle.js\"></script>''
           @ ''</body>'' @ ''</html>''"
proof -
  have first: "\<forall>i<length ''<html><body><div id=root></div>''.
      \<not> starts_with (drop i (''<html><body><div id=root></div>'' @ ''</body>'' @ ''</html>''))
           ''</body>''"
    by (simp add: All_less_Suc2)
  from build_artifacts[of demo_env initial_state "''/p/index.js''" "''/out''"] first
  have "str_replace (''<html><body><div id=root></div>'' @ ''</body>'' @ ''</html>'') ''</body>''
         ''<script src=\"/bundle.js\"></script></body>''
       = ''<html><body><div id=root></div>'' @ ''<script src=\"/bundle.js\"></script>''
           @ ''</body>'' @ ''</html>''"
    by blast
  moreover have "map_of (files demo_env) ''/p/index.html''
       = Some ''<html><body><div id=root></div></body></html>''"
    by (simp add: demo_env_def)
  moreover have "\<exists>moduleCode. written demo_built =
         [(''/out/bundle.js'', moduleCode),
          (''/out/index.html'',
           ''<html><body><div id=root></div><script src=\"/bundle.js\"></script></body></html>'')]"
    by (simp add: demo_built_def demo_html_def)
  ultimately show ?thesis using demo_build by blast
qed


section \<open>A failed load leaves the cache as it was\<close>

text \<open>
  Claim C10. If \<open>createModule\<close> fails for a path because the extension of the path has no
  loader, because the file cannot be read, or because the front-end cannot parse it, then
  the call throws and leaves the state, and so the module cache, exactly as it was: the
  path is not registered. And whatever a call of \<open>createModule\<close> does, the entries that
  were in the cache before it are in the cache after it, unchanged.
\<close>

theorem createModule_failure_keeps_cache:
  assumes "map_of (MODULE_CACHE s) p = None"
    and "MODULE_LOADERS (path_extname p) = None
         \<or> map_of (files env) p = None
         \<or> (\<exists>c. MODULE_LOADERS (path_extname p) = Some JSModule
                \<and> map_of (files env) p = Some c \<and> parseSync env c = None)"
  shows "(\<exists>e. createModule env s p = (Inl e, s))
         \<and> map_of (MODULE_CACHE s) \<subseteq>\<^sub>m map_of (MODULE_CACHE (snd (createModule env s p)))"
proof -
  have "\<exists>e. createModule env s p = (Inl e, s)"
  proof (cases "MODULE_LOADERS (path_extname p)")
    case None
    then show ?thesis using assms(1) by (simp add: createModule.simps)
  next
    case (Some c)
    have "\<exists>e. new_Module env c p = Inl e"
      using assms(2) Some
      by (auto simp: new_Module_def readFileSync_def split: sum.splits module_class.splits)
    then show ?thesis using assms(1) Some by (auto simp: createModule.simps)
  qed
  then show ?thesis using cache_entries_kept by blast
qed

text \<open>
  With the two scripts loaded, a request for \<open>/p/c.js\<close>, which does not exist, throws and
  leaves both entries in place.
\<close>

theorem createModule_failure_keeps_cache_witness:
  "map_of (MODULE_CACHE cyc_loaded) ''/p/c.js'' = None
   \<and> map_of (files cyc_env) ''/p/c.js'' = None
   \<and> (\<exists>e. createModule cyc_env cyc_loaded ''/p/c.js'' = (Inl e, cyc_loaded))
   \<and> MODULE_CACHE cyc_loaded = [(''/p/a.js'', 0), (''/p/b.js'', 1)]"
  using createModule_failure_keeps_cache[of cyc_loaded "''/p/c.js''" cyc_env]
  by (simp add: cyc_loaded_def cyc_env_def)


end
